theory Spec2Isabelle
  imports Main "HOL-Library.Sublist"
begin

section \<open>Python values\<close>

text \<open>
  The posts are what \<^verbatim>\<open>response.json()\<close> decodes: \<^verbatim>\<open>None\<close>, booleans, integers,
  floats, strings, lists and dictionaries with string keys. A float is carried with the
  text Python prints for it, since that text is the only thing the program uses of it.
  A dictionary is an association list in insertion order; lookup takes the first entry of
  a key. A string is a list of bytes, and the model is exact on ASCII text: the case
  conversion and the quoting below know the ASCII letters and control characters only,
  and treat the bytes from 128 on as uncased and printable, where Python goes by the
  Unicode tables. The properties that depend on a case conversion are stated for ASCII
  text. The format strings of the program are carried without the one character outside
  ASCII that they have (a variation selector at the head of the message of line 479).
\<close>

datatype pyval =
    PNone
  | PBool bool
  | PInt int
  | PFloat string
  | PStr string
  | PList "pyval list"
  | PDict "(string \<times> pyval) list"

text \<open>
  The exceptions the program distinguishes. \<open>KeyboardInterrupt\<close> is the only one that is
  not a subclass of \<^verbatim>\<open>Exception\<close>. \<open>ConnectionError\<close>, \<open>Timeout\<close> and \<open>HTTPError\<close>
  are subclasses of \<^verbatim>\<open>requests.RequestException\<close>; \<open>JSONDecodeError\<close> is
  \<^verbatim>\<open>json.JSONDecodeError\<close>. \<open>LaunchFailed\<close> is the
  \<^verbatim>\<open>Exception("Failed to launch Notepad application")\<close> of \<^verbatim>\<open>run_automation\<close>;
  \<open>OtherError\<close> is any other subclass of \<^verbatim>\<open>Exception\<close> that a library raises
  (PyAutoGUI's fail-safe, an \<^verbatim>\<open>OSError\<close>).
\<close>

datatype exc =
    KeyboardInterrupt
  | ConnectionError
  | Timeout
  | HTTPError
  | RequestException
  | JSONDecodeError
  | AttributeError
  | TypeError
  | LaunchFailed
  | OtherError

definition is_Exception :: "exc \<Rightarrow> bool" where
  "is_Exception e = (e \<noteq> KeyboardInterrupt)"

definition is_RequestException :: "exc \<Rightarrow> bool" where
  "is_RequestException e = (e \<in> {ConnectionError, Timeout, HTTPError, RequestException})"

subsection \<open>Rendering values as text\<close>

definition digit_char :: "nat \<Rightarrow> char" where
  "digit_char d = ''0123456789abcdef'' ! d"

fun show_nat :: "nat \<Rightarrow> string" where
  "show_nat n = (if n < 10 then [digit_char n] else show_nat (n div 10) @ [digit_char (n mod 10)])"

declare show_nat.simps [simp del]

definition show_int :: "int \<Rightarrow> string" where
  "show_int i = (if i < 0 then ''-'' @ show_nat (nat (- i)) else show_nat (nat i))"

definition nl :: char where
  "nl = CHR 0x0A"

definition backslash :: char where
  "backslash = CHR 0x5C"

definition squote :: char where
  "squote = CHR 0x27"

definition dquote :: char where
  "dquote = CHR 0x22"

text \<open>\<^verbatim>\<open>repr\<close> of a string: single quotes unless the string has a single quote and no
  double quote; the quote and the backslash are escaped, and so are the control characters.\<close>

definition repr_quote :: "string \<Rightarrow> char" where
  "repr_quote s = (if squote \<in> set s \<and> dquote \<notin> set s then dquote else squote)"

definition repr_char :: "char \<Rightarrow> char \<Rightarrow> string" where
  "repr_char q c =
     (if c = q \<or> c = backslash then [backslash, c]
      else if c = CHR 0x09 then [backslash, CHR ''t'']
      else if c = CHR 0x0A then [backslash, CHR ''n'']
      else if c = CHR 0x0D then [backslash, CHR ''r'']
      else if (of_char c :: nat) < 32 \<or> (of_char c :: nat) = 127
        then [backslash, CHR ''x'', digit_char ((of_char c :: nat) div 16),
              digit_char ((of_char c :: nat) mod 16)]
      else [c])"

definition repr_str :: "string \<Rightarrow> string" where
  "repr_str s = (let q = repr_quote s in [q] @ concat (map (repr_char q) s) @ [q])"

fun join :: "string \<Rightarrow> string list \<Rightarrow> string" where
  "join sep [] = []"
| "join sep [x] = x"
| "join sep (x # y # ys) = x @ sep @ join sep (y # ys)"

fun py_repr :: "pyval \<Rightarrow> string" where
  "py_repr PNone = ''None''"
| "py_repr (PBool b) = (if b then ''True'' else ''False'')"
| "py_repr (PInt i) = show_int i"
| "py_repr (PFloat r) = r"
| "py_repr (PStr s) = repr_str s"
| "py_repr (PList xs) = ''['' @ join '', '' (map py_repr xs) @ '']''"
| "py_repr (PDict kvs) =
     ''{'' @ join '', '' (map (\<lambda>kv. repr_str (fst kv) @ '': '' @ py_repr (snd kv)) kvs) @ ''}''"

text \<open>\<^verbatim>\<open>str(v)\<close>, which is also what an f-string field \<^verbatim>\<open>{v}\<close> renders.\<close>

definition py_str :: "pyval \<Rightarrow> string" where
  "py_str v = (case v of PStr s \<Rightarrow> s | _ \<Rightarrow> py_repr v)"

subsection \<open>The operations the program applies to values\<close>

text \<open>\<^verbatim>\<open>v.get(k, d)\<close>: only a dictionary has the method.\<close>

definition py_get :: "pyval \<Rightarrow> string \<Rightarrow> pyval \<Rightarrow> exc + pyval" where
  "py_get v k d =
     (case v of
        PDict kvs \<Rightarrow> Inr (case map_of kvs k of Some x \<Rightarrow> x | None \<Rightarrow> d)
      | _ \<Rightarrow> Inl AttributeError)"

text \<open>\<^verbatim>\<open>v[:n]\<close>: strings and lists are sliced; every other value raises (a
  \<^verbatim>\<open>TypeError\<close>; for a dictionary Python 3.12 raises \<^verbatim>\<open>KeyError\<close> instead, which
  the program treats alike).\<close>

definition py_slice :: "nat \<Rightarrow> pyval \<Rightarrow> exc + pyval" where
  "py_slice n v =
     (case v of
        PStr s \<Rightarrow> Inr (PStr (take n s))
      | PList xs \<Rightarrow> Inr (PList (take n xs))
      | _ \<Rightarrow> Inl TypeError)"

definition py_len :: "pyval \<Rightarrow> exc + nat" where
  "py_len v =
     (case v of
        PStr s \<Rightarrow> Inr (length s)
      | PList xs \<Rightarrow> Inr (length xs)
      | PDict kvs \<Rightarrow> Inr (length kvs)
      | _ \<Rightarrow> Inl TypeError)"

text \<open>Iteration, as \<^verbatim>\<open>enumerate\<close> does it: the elements of a list, the characters of
  a string, the keys of a dictionary.\<close>

definition py_iter :: "pyval \<Rightarrow> exc + pyval list" where
  "py_iter v =
     (case v of
        PList xs \<Rightarrow> Inr xs
      | PStr s \<Rightarrow> Inr (map (\<lambda>c. PStr [c]) s)
      | PDict kvs \<Rightarrow> Inr (map (\<lambda>kv. PStr (fst kv)) kvs)
      | _ \<Rightarrow> Inl TypeError)"

text \<open>Truth value, for \<^verbatim>\<open>if success:\<close> and the result of \<^verbatim>\<open>exists()\<close>.\<close>

definition py_truth :: "pyval \<Rightarrow> bool" where
  "py_truth v =
     (case v of
        PNone \<Rightarrow> False
      | PBool b \<Rightarrow> b
      | PInt i \<Rightarrow> i \<noteq> 0
      | PFloat r \<Rightarrow> r \<notin> {''0.0'', ''-0.0''}
      | PStr s \<Rightarrow> s \<noteq> []
      | PList xs \<Rightarrow> xs \<noteq> []
      | PDict kvs \<Rightarrow> kvs \<noteq> [])"

subsection \<open>\<^verbatim>\<open>str.title()\<close>\<close>

text \<open>On ASCII text: the cased characters are the 26 letters.\<close>

definition lower_letters :: string where
  "lower_letters = ''abcdefghijklmnopqrstuvwxyz''"

definition upper_letters :: string where
  "upper_letters = ''ABCDEFGHIJKLMNOPQRSTUVWXYZ''"

definition is_cased :: "char \<Rightarrow> bool" where
  "is_cased c = (c \<in> set lower_letters \<or> c \<in> set upper_letters)"

definition to_upper :: "char \<Rightarrow> char" where
  "to_upper c = (case map_of (zip lower_letters upper_letters) c of Some u \<Rightarrow> u | None \<Rightarrow> c)"

definition to_lower :: "char \<Rightarrow> char" where
  "to_lower c = (case map_of (zip upper_letters lower_letters) c of Some l \<Rightarrow> l | None \<Rightarrow> c)"

text \<open>A character that follows a cased character is lowered, any other is raised.\<close>

fun title_from :: "bool \<Rightarrow> string \<Rightarrow> string" where
  "title_from previous_is_cased [] = []"
| "title_from previous_is_cased (c # cs) =
     (if previous_is_cased then to_lower c else to_upper c) # title_from (is_cased c) cs"

definition str_title :: "string \<Rightarrow> string" where
  "str_title s = title_from False s"

text \<open>\<^verbatim>\<open>v.title()\<close>: only a string has the method.\<close>

definition py_title :: "pyval \<Rightarrow> exc + string" where
  "py_title v = (case v of PStr s \<Rightarrow> Inr (str_title s) | _ \<Rightarrow> Inl AttributeError)"

section \<open>The text of a post\<close>

definition unlines :: "string list \<Rightarrow> string" where
  "unlines ls = concat (map (\<lambda>l. l @ [nl]) ls)"

definition rule60 :: string where
  "rule60 = replicate 60 CHR ''=''"

text \<open>The f-string of \<^verbatim>\<open>format_blog_post\<close>, with its four fields already rendered.\<close>

definition blog_template :: "string \<Rightarrow> string \<Rightarrow> string \<Rightarrow> string \<Rightarrow> string" where
  "blog_template post_id title user_id body =
     unlines
       [''BLOG POST #'' @ post_id,
        rule60,
        [],
        ''TITLE: '' @ title,
        [],
        ''AUTHOR: User #'' @ user_id,
        [],
        ''BLOG CONTENT:'',
        body,
        [],
        rule60,
        ''Source: JSONPlaceholder API - https://jsonplaceholder.typicode.com/posts/'' @ post_id,
        ''Generated by Automated Data Entry Bot'',
        rule60]"

definition format_blog_post :: "pyval \<Rightarrow> exc + string" where
  "format_blog_post post =
     (case py_get post ''id'' (PStr ''Unknown'') of
        Inl e \<Rightarrow> Inl e
      | Inr post_id \<Rightarrow>
     (case py_get post ''title'' (PStr ''Untitled'') of
        Inl e \<Rightarrow> Inl e
      | Inr t \<Rightarrow>
     (case py_title t of
        Inl e \<Rightarrow> Inl e
      | Inr title \<Rightarrow>
     (case py_get post ''body'' (PStr ''No content available'') of
        Inl e \<Rightarrow> Inl e
      | Inr body \<Rightarrow>
     (case py_get post ''userId'' (PStr ''Unknown'') of
        Inl e \<Rightarrow> Inl e
      | Inr user_id \<Rightarrow>
          Inr (blog_template (py_str post_id) title (py_str user_id) (py_str body)))))))"

text \<open>Lines 355 and 356 of \<^verbatim>\<open>process_single_post\<close>: the name of the file of a post.\<close>

definition post_filename :: "pyval \<Rightarrow> nat \<Rightarrow> exc + string" where
  "post_filename post post_number =
     (case py_get post ''id'' (PInt (int post_number)) of
        Inl e \<Rightarrow> Inl e
      | Inr post_id \<Rightarrow> Inr (''post '' @ py_str post_id @ ''.txt''))"

section \<open>The outside world\<close>

text \<open>
  Everything the program does to the outside is a call of a library: the HTTP request,
  the keystrokes, the pauses, the look at the file system. A call is an \<open>action\<close>;
  the world answers it by returning a value or by raising. The program's run is recorded
  as a trace, the calls with their answers and the log lines, in the order they happen.
  The world's answer may depend on the call and on everything that happened before, so
  the environment is a function of the trace so far and of the action.

  An operator's Ctrl+C is the answer \<open>Raise KeyboardInterrupt\<close> to the call during
  which it arrives (the program spends its time in these calls). Durations are in
  milliseconds. A log line is recorded with its level and the text of its format string,
  every interpolated field written \<^verbatim>\<open>{}\<close>; writing a log line does not fail.
\<close>

datatype action =
    RequestsGet string nat
  | RaiseForStatus
  | ResponseJson
  | Execute string
  | Wait nat
  | TypeText string
  | Hotkey string string
  | Typewrite string nat
  | Press string
  | Sleep nat
  | PathExists string
  | StatSize string
  | Glob string string
  | Print string

datatype outcome = Ret pyval | Raise exc

datatype level = Info | Error

datatype event = Ext action outcome | Log level string

type_synonym trace = "event list"

type_synonym environment = "trace \<Rightarrow> action \<Rightarrow> outcome"

text \<open>A computation reads the environment, extends the trace, and returns or raises.\<close>

type_synonym 'a io = "environment \<Rightarrow> trace \<Rightarrow> (exc + 'a) \<times> trace"

definition io_return :: "'a \<Rightarrow> 'a io" where
  "io_return x env tr = (Inr x, tr)"

definition io_raise :: "exc \<Rightarrow> 'a io" where
  "io_raise e env tr = (Inl e, tr)"

definition io_bind :: "'a io \<Rightarrow> ('a \<Rightarrow> 'b io) \<Rightarrow> 'b io" where
  "io_bind m f env tr =
     (case m env tr of
        (Inl e, tr') \<Rightarrow> (Inl e, tr')
      | (Inr x, tr') \<Rightarrow> f x env tr')"

definition thn :: "'a io \<Rightarrow> 'b io \<Rightarrow> 'b io" where
  "thn m k = io_bind m (\<lambda>_. k)"

text \<open>\<^verbatim>\<open>try: m  except ... as e: h e\<close>, where \<open>h\<close> raises again what no clause catches.\<close>

definition try_catch :: "'a io \<Rightarrow> (exc \<Rightarrow> 'a io) \<Rightarrow> 'a io" where
  "try_catch m h env tr =
     (case m env tr of
        (Inl e, tr') \<Rightarrow> h e env tr'
      | (Inr x, tr') \<Rightarrow> (Inr x, tr'))"

text \<open>\<^verbatim>\<open>except Exception as e\<close> lets \<open>KeyboardInterrupt\<close> pass.\<close>

definition try_except :: "'a io \<Rightarrow> (exc \<Rightarrow> 'a io) \<Rightarrow> 'a io" where
  "try_except m h = try_catch m (\<lambda>e. if is_Exception e then h e else io_raise e)"

text \<open>A bare \<^verbatim>\<open>except: pass\<close> catches everything.\<close>

definition try_pass :: "unit io \<Rightarrow> unit io" where
  "try_pass m = try_catch m (\<lambda>e. io_return ())"

definition lift :: "exc + 'a \<Rightarrow> 'a io" where
  "lift r env tr = (r, tr)"

definition call :: "action \<Rightarrow> pyval io" where
  "call a env tr =
     (case env tr a of
        Ret v \<Rightarrow> (Inr v, tr @ [Ext a (Ret v)])
      | Raise e \<Rightarrow> (Inl e, tr @ [Ext a (Raise e)]))"

definition do_call :: "action \<Rightarrow> unit io" where
  "do_call a = io_bind (call a) (\<lambda>_. io_return ())"

definition log_line :: "level \<Rightarrow> string \<Rightarrow> unit io" where
  "log_line l msg env tr = (Inr (), tr @ [Log l msg])"

primrec seq :: "unit io list \<Rightarrow> unit io" where
  "seq [] = io_return ()"
| "seq (m # ms) = thn m (seq ms)"

section \<open>The bot\<close>

text \<open>The fields of \<^verbatim>\<open>self\<close> that the methods read. \<^verbatim>\<open>posts_data\<close> is assigned once
  in \<^verbatim>\<open>run_automation\<close> and read only there; it is a local value of that function here.\<close>

record bot =
  project_dir :: string
  api_url :: string

text \<open>
  \<^verbatim>\<open>str(self.project_dir / filename)\<close>, as \<^verbatim>\<open>pathlib\<close> computes it on Windows, the
  platform of the bot. The filename is cut at every separator, the slash and the
  backslash alike; the parts that are empty or a single dot are dropped; what remains is
  appended to the directory, each part after a backslash. \<open>project_dir\<close> is the text of
  the directory's path, which ends in the component \<^verbatim>\<open>tjm-project\<close>. The filename of a
  post begins with \<^verbatim>\<open>post\<close> and a space, so it has neither a drive nor a root that would
  replace the directory.
\<close>

definition is_separator :: "char \<Rightarrow> bool" where
  "is_separator c = (c = backslash \<or> c = CHR ''/'')"

fun split_path :: "string \<Rightarrow> string list" where
  "split_path [] = [[]]"
| "split_path (c # cs) =
     (if is_separator c then [] # split_path cs
      else (case split_path cs of
              [] \<Rightarrow> [[c]]
            | part # parts \<Rightarrow> (c # part) # parts))"

definition path_parts :: "string \<Rightarrow> string list" where
  "path_parts f = filter (\<lambda>part. part \<noteq> [] \<and> part \<noteq> ''.'') (split_path f)"

definition path_join :: "string \<Rightarrow> string \<Rightarrow> string" where
  "path_join d f = d @ concat (map (\<lambda>part. backslash # part) (path_parts f))"

definition fetch_posts_data :: "bot \<Rightarrow> pyval io" where
  "fetch_posts_data self =
     try_catch
       (thn (log_line Info '' Fetching posts from JSONPlaceholder API...'')
       (thn (log_line Info '' API URL: {}'')
       (thn (call (RequestsGet (api_url self) 30))
       (thn (call RaiseForStatus)
       (io_bind (call ResponseJson) (\<lambda>posts.
        io_bind (lift (py_len posts)) (\<lambda>n.
        thn (log_line Info '' Successfully fetched {} posts'')
       (io_bind (lift (py_slice 10 posts)) (\<lambda>selected_posts.
        thn (log_line Info '' Selected first 10 posts for processing'')
       (io_return selected_posts))))))))))
       (\<lambda>e. if e = ConnectionError then
                thn (log_line Error '' Network connection error - check internet connection'')
                    (io_raise e)
              else if e = Timeout then
                thn (log_line Error '' API request timeout'') (io_raise e)
              else if is_RequestException e then
                thn (log_line Error '' API request failed: {}'') (io_raise e)
              else if e = JSONDecodeError then
                thn (log_line Error '' Invalid JSON response: {}'') (io_raise e)
              else io_raise e)"

definition launch_notepad_botcity :: "bool io" where
  "launch_notepad_botcity =
     try_except
       (thn (log_line Info '' Launching Notepad using BotCity...'')
       (io_bind (call (Execute ''notepad.exe'')) (\<lambda>success.
        if py_truth success then
          thn (do_call (Wait 3000))
         (thn (log_line Info '' Notepad launched successfully via BotCity'')
         (io_return True))
        else
          thn (log_line Error '' BotCity failed to launch Notepad'')
         (io_return False))))
       (\<lambda>e. thn (log_line Error '' BotCity launch failed: {}'') (io_return False))"

definition launch_notepad_pyautogui :: "bool io" where
  "launch_notepad_pyautogui =
     try_except
       (thn (seq
          [log_line Info '' Launching Notepad using PyAutoGUI fallback...'',
           do_call (Hotkey ''win'' ''r''),
           do_call (Sleep 1000),
           do_call (Typewrite ''notepad'' 100),
           do_call (Press ''enter''),
           do_call (Sleep 2000),
           do_call (Hotkey ''win'' ''up''),
           do_call (Sleep 1000),
           log_line Info '' Notepad launched successfully via PyAutoGUI''])
          (io_return True))
       (\<lambda>e. thn (log_line Error '' PyAutoGUI launch failed: {}'') (io_return False))"

definition launch_notepad :: "bool io" where
  "launch_notepad =
     try_except
       (io_bind launch_notepad_botcity (\<lambda>launched.
        if launched then io_return True
        else thn (log_line Info '' Trying PyAutoGUI fallback...'') launch_notepad_pyautogui))
       (\<lambda>e. thn (log_line Error '' All launch methods failed: {}'') (io_return False))"

definition type_text_botcity :: "string \<Rightarrow> bool io" where
  "type_text_botcity text =
     try_except
       (thn (do_call (TypeText text))
       (thn (log_line Info '' Text typed using BotCity'')
       (io_return True)))
       (\<lambda>e. thn (log_line Error '' BotCity typing failed: {}'') (io_return False))"

definition type_text_pyautogui :: "string \<Rightarrow> bool io" where
  "type_text_pyautogui text =
     try_except
       (thn (seq
          [do_call (Hotkey ''ctrl'' ''a''),
           do_call (Sleep 200),
           do_call (Press ''delete''),
           do_call (Sleep 200),
           do_call (Typewrite text 10),
           log_line Info '' Text typed using PyAutoGUI''])
          (io_return True))
       (\<lambda>e. thn (log_line Error '' PyAutoGUI typing failed: {}'') (io_return False))"

definition type_text_hybrid :: "string \<Rightarrow> bool io" where
  "type_text_hybrid text =
     try_except
       (io_bind (type_text_botcity text) (\<lambda>typed.
        if typed then io_return True
        else thn (log_line Info '' Using PyAutoGUI for typing...'') (type_text_pyautogui text)))
       (\<lambda>e. thn (log_line Error '' All typing methods failed: {}'') (io_return False))"

definition save_document :: "bot \<Rightarrow> string \<Rightarrow> bool io" where
  "save_document self filename =
     try_except
       (thn (seq
          [log_line Info '' Saving document as: {}'',
           do_call (Hotkey ''ctrl'' ''s''),
           do_call (Sleep 1500),
           do_call (Typewrite (path_join (project_dir self) filename) 20),
           do_call (Sleep 500),
           do_call (Press ''enter''),
           do_call (Sleep 1000),
           try_pass (seq [do_call (Press ''enter''), do_call (Sleep 500)])])
       (io_bind (call (PathExists (path_join (project_dir self) filename))) (\<lambda>found.
        if py_truth found then
          io_bind (call (StatSize (path_join (project_dir self) filename))) (\<lambda>file_size.
          thn (log_line Info '' File saved successfully: {} ({} bytes)'')
         (io_return True))
        else
          thn (log_line Error '' File not found after save: {}'')
         (io_return False))))
       (\<lambda>e. thn (log_line Error '' Save failed for {}: {}'') (io_return False))"

definition create_new_document :: "unit io" where
  "create_new_document =
     try_except
       (seq
          [do_call (Hotkey ''ctrl'' ''n''),
           do_call (Sleep 500),
           try_pass (seq [do_call (Press ''n''), do_call (Sleep 500)])])
       (\<lambda>e. log_line Error '' Failed to create new document: {}'')"

definition close_notepad :: "unit io" where
  "close_notepad =
     try_except
       (seq
          [do_call (Hotkey ''alt'' ''f4''),
           do_call (Sleep 500),
           try_pass (seq [do_call (Press ''n''), do_call (Sleep 500)])])
       (\<lambda>e. log_line Error '' Error closing Notepad: {}'')"

definition process_single_post :: "bot \<Rightarrow> pyval \<Rightarrow> nat \<Rightarrow> bool io" where
  "process_single_post self post post_number =
     try_except
       (io_bind (lift (post_filename post post_number)) (\<lambda>filename.
        thn (log_line Info '' Processing Post #{}: ID {}'')
       (io_bind (lift (py_get post ''title'' (PStr ''No title''))) (\<lambda>t.
        io_bind (lift (py_slice 50 t)) (\<lambda>shown.
        thn (log_line Info '' Title: {}...'')
       (io_bind (lift (format_blog_post post)) (\<lambda>formatted_post.
        io_bind (type_text_hybrid formatted_post) (\<lambda>typed.
        if \<not> typed then
          thn (log_line Error '' Failed to type content for post {}'') (io_return False)
        else
          io_bind (save_document self filename) (\<lambda>saved.
          if \<not> saved then
            thn (log_line Error '' Failed to save post {}'') (io_return False)
          else
            thn (if post_number < 10 then create_new_document else io_return ())
           (thn (log_line Info '' Post {} completed successfully'')
           (io_return True)))))))))))
       (\<lambda>e. io_bind (lift (py_get post ''id'' (PInt (int post_number)))) (\<lambda>shown.
             thn (log_line Error '' Failed to process post {}: {}'') (io_return False)))"

subsection \<open>The loop over the posts\<close>

text \<open>The two counters of \<^verbatim>\<open>run_automation\<close>.\<close>

record counters =
  successful_posts :: nat
  failed_posts :: nat

datatype loop_ctl = Continue counters | Break counters

text \<open>
  The body of the \<^verbatim>\<open>for\<close> loop, lines 424 to 446. The counters are local variables:
  an increment done before an exception stays done, so the handler sees the counters as
  they are when the exception is raised. The handler itself never raises. The body ends
  by going on to the next post or by leaving the loop.
\<close>

definition loop_handler :: "nat \<Rightarrow> counters \<Rightarrow> exc \<Rightarrow> loop_ctl io" where
  "loop_handler i c e =
     (if e = KeyboardInterrupt then
        thn (log_line Info '' User interrupted automation'') (io_return (Break c))
      else
        thn (log_line Error '' Post {} failed: {}'')
       (thn (try_pass create_new_document)
       (io_return (Continue (c\<lparr>failed_posts := failed_posts c + 1\<rparr>)))))"

definition loop_body :: "bot \<Rightarrow> pyval \<Rightarrow> nat \<Rightarrow> counters \<Rightarrow> loop_ctl io" where
  "loop_body self post i c =
     thn (log_line Info (nl # ''--- Processing {}/10 ---''))
    (try_catch
       (io_bind (process_single_post self post i) (\<lambda>done.
        let c' = (if done then c\<lparr>successful_posts := successful_posts c + 1\<rparr>
                  else c\<lparr>failed_posts := failed_posts c + 1\<rparr>)
        in try_catch (thn (do_call (Sleep 1000)) (io_return (Continue c')))
             (loop_handler i c')))
       (loop_handler i c))"

primrec process_posts :: "bot \<Rightarrow> pyval list \<Rightarrow> nat \<Rightarrow> counters \<Rightarrow> counters io" where
  "process_posts self [] i c = io_return c"
| "process_posts self (post # rest) i c =
     io_bind (loop_body self post i c) (\<lambda>ctl.
       case ctl of
         Continue c' \<Rightarrow> process_posts self rest (i + 1) c'
       | Break c' \<Rightarrow> io_return c')"

subsection \<open>The whole run\<close>

text \<open>The report loop of lines 461 to 463, one \<^verbatim>\<open>stat\<close> per listed file. The loop
  runs over \<^verbatim>\<open>sorted(created_files)\<close>: the answer of the world to the listing stands
  for the listed paths in that sorted order (sorting makes no call, and the length that
  is logged before is the same).\<close>

primrec report_files :: "pyval list \<Rightarrow> unit io" where
  "report_files [] = io_return ()"
| "report_files (file # files) =
     thn (call (StatSize (py_str file)))
    (thn (log_line Info ''    {} ({} bytes)'')
    (report_files files))"

text \<open>Lines 391 to 400 of \<^verbatim>\<open>run_automation\<close>: the announcement.\<close>

definition announce :: "unit io" where
  "announce =
     seq
       [log_line Info '' Starting Automated Data Entry Bot'',
        log_line Info '' Project Requirements:'',
        log_line Info ''    Use BotCity and PyAutoGUI'',
        log_line Info ''    Launch Notepad'',
        log_line Info ''    Fetch data from JSONPlaceholder API'',
        log_line Info ''    Format as blog posts with title and content'',
        log_line Info ''    Save in tjm-project directory'',
        log_line Info ''    Process first 10 posts'',
        log_line Info ''    Error handling implemented'',
        do_call (Print [])]"

text \<open>Lines 451 to 476 of \<^verbatim>\<open>run_automation\<close>: the final report.\<close>

definition final_report :: "bot \<Rightarrow> unit io" where
  "final_report self =
     thn (seq
       [log_line Info (nl # replicate 70 CHR ''=''),
        log_line Info '' AUTOMATION COMPLETED!'',
        log_line Info '' Successfully processed: {}/10 posts'',
        log_line Info '' Failed to process: {}/10 posts'',
        log_line Info '' Files location: {}''])
    (io_bind (call (Glob (project_dir self) ''post *.txt'')) (\<lambda>listing.
     io_bind (lift (py_iter listing)) (\<lambda>created_files.
     seq
       [log_line Info '' Created files ({}):'',
        report_files created_files,
        log_line Info (replicate 70 CHR ''=''),
        log_line Info (nl # '' REQUIREMENTS VERIFICATION:''),
        log_line Info '' BotCity and PyAutoGUI used'',
        log_line Info '' Notepad launched and automated'',
        log_line Info '' JSONPlaceholder API data fetched'',
        log_line Info '' Blog post format with title and content'',
        log_line Info '' Files saved in tjm-project directory'',
        log_line Info '' 10 posts processed in loop'',
        log_line Info '' Error handling implemented'',
        log_line Info '' Files named: post 1.txt, post 2.txt, etc.''])))"

text \<open>The body of the \<^verbatim>\<open>try\<close> of \<^verbatim>\<open>run_automation\<close>, lines 391 to 476; its value is
  the pair of counters that the final report logs.\<close>

definition automation_steps :: "bot \<Rightarrow> counters io" where
  "automation_steps self =
     thn announce
    (io_bind
       (try_except (fetch_posts_data self)
          (\<lambda>e. thn (log_line Error '' API fetch failed: {}'') (io_raise e)))
       (\<lambda>posts_data.
     thn (try_except
            (io_bind launch_notepad (\<lambda>launched.
               if \<not> launched then io_raise LaunchFailed else io_return ()))
            (\<lambda>e. thn (log_line Error '' Application launch failed: {}'') (io_raise e)))
    (io_bind (lift (py_len posts_data)) (\<lambda>n.
     thn (log_line Info '' Processing {} posts...'')
    (io_bind (lift (py_iter posts_data)) (\<lambda>posts.
     io_bind (process_posts self posts 1 \<lparr>successful_posts = 0, failed_posts = 0\<rparr>) (\<lambda>c.
     thn close_notepad
    (thn (final_report self)
    (io_return c)))))))))"

definition run_automation :: "bot \<Rightarrow> unit io" where
  "run_automation self =
     try_catch
       (thn (automation_steps self) (io_return ()))
       (\<lambda>e. if e = KeyboardInterrupt then
                thn (log_line Info '' Automation interrupted by user'') close_notepad
              else
                thn (log_line Error '' Automation failed: {}'')
               (thn close_notepad
               (io_raise e)))"
section \<open>Notions used in the properties\<close>

text \<open>A computation emits \<open>P\<close> when it only appends to the trace, and only events that
  satisfy \<open>P\<close>.\<close>

definition emits :: "(event \<Rightarrow> bool) \<Rightarrow> 'a io \<Rightarrow> bool" where
  "emits P m = (\<forall>env tr. \<exists>seg. snd (m env tr) = tr @ seg \<and> list_all P seg)"

text \<open>A computation raises only \<open>E\<close> when every exception that leaves it is in \<open>E\<close>.\<close>

definition raises_only :: "exc set \<Rightarrow> 'a io \<Rightarrow> bool" where
  "raises_only E m = (\<forall>env tr e. fst (m env tr) = Inl e \<longrightarrow> e \<in> E)"

text \<open>The log line that opens an iteration of the loop over the posts.\<close>

definition iteration_line :: event where
  "iteration_line = Log Info (nl # ''--- Processing {}/10 ---'')"

text \<open>An event of a step outside the loop's own bookkeeping: a call among \<open>A\<close>, or a
  log line other than the one that opens an iteration.\<close>

definition step_event :: "action set \<Rightarrow> event \<Rightarrow> bool" where
  "step_event A ev = (case ev of Ext a out \<Rightarrow> a \<in> A | Log l msg \<Rightarrow> ev \<noteq> iteration_line)"

text \<open>The fallback method, as it runs once the primary method has returned and the
  combined method has logged that it falls back.\<close>

definition launch_fallback_run :: "bool io" where
  "launch_fallback_run env tr =
     launch_notepad_pyautogui env
       (snd (launch_notepad_botcity env tr) @ [Log Info '' Trying PyAutoGUI fallback...''])"

definition typing_fallback_run :: "string \<Rightarrow> bool io" where
  "typing_fallback_run text env tr =
     type_text_pyautogui text env
       (snd (type_text_botcity text env tr) @ [Log Info '' Using PyAutoGUI for typing...''])"

text \<open>The calls in a trace, without the log lines.\<close>

definition is_call :: "event \<Rightarrow> bool" where
  "is_call ev = (case ev of Ext a out \<Rightarrow> True | Log l msg \<Rightarrow> False)"

definition calls :: "trace \<Rightarrow> trace" where
  "calls tr = filter is_call tr"

text \<open>The operator does not interrupt: no call is answered by \<open>KeyboardInterrupt\<close>.\<close>

definition uninterrupted :: "environment \<Rightarrow> bool" where
  "uninterrupted env = (\<forall>tr a. env tr a \<noteq> Raise KeyboardInterrupt)"

text \<open>A computation is calm in an environment when no \<open>KeyboardInterrupt\<close> leaves it
  there.\<close>

definition calm :: "environment \<Rightarrow> 'a io \<Rightarrow> bool" where
  "calm env m = (\<forall>tr. fst (m env tr) \<noteq> Inl KeyboardInterrupt)"

text \<open>The calls of the typing methods for a text, of \<^verbatim>\<open>save_document\<close> for a target
  path, and of \<^verbatim>\<open>create_new_document\<close>.\<close>

definition typing_actions :: "string \<Rightarrow> action set" where
  "typing_actions text =
     {TypeText text, Hotkey ''ctrl'' ''a'', Sleep 200, Press ''delete'', Typewrite text 10}"

definition saving_actions :: "string \<Rightarrow> action set" where
  "saving_actions target =
     {Hotkey ''ctrl'' ''s'', Sleep 1500, Typewrite target 20, Sleep 500, Press ''enter'',
      Sleep 1000, PathExists target, StatSize target}"

definition new_document_actions :: "action set" where
  "new_document_actions = {Hotkey ''ctrl'' ''n'', Sleep 500, Press ''n''}"

text \<open>The calls that type the text of a post, and the calls that save it under its
  filename and open the next document.\<close>

definition post_typing_actions :: "pyval \<Rightarrow> action set" where
  "post_typing_actions post =
     (case format_blog_post post of Inr text \<Rightarrow> typing_actions text | Inl e \<Rightarrow> {})"

definition post_saving_actions :: "bot \<Rightarrow> pyval \<Rightarrow> nat \<Rightarrow> action set" where
  "post_saving_actions self post post_number =
     (case post_filename post post_number of
        Inr filename \<Rightarrow> saving_actions (path_join (project_dir self) filename)
      | Inl e \<Rightarrow> {})
     \<union> new_document_actions"

text \<open>The paths that a trace shows as saved, in the order of the trace and with their
  repetitions: the targets of the checks made after a save that found a file. This is all
  the program learns about a file; a file that was there before the run is found as
  well, and two saves under one path leave one file.\<close>

fun found_file :: "event \<Rightarrow> string option" where
  "found_file (Ext (PathExists target) (Ret v)) = (if py_truth v then Some target else None)"
| "found_file ev = None"

definition saved_files :: "trace \<Rightarrow> string list" where
  "saved_files tr = List.map_filter found_file tr"

text \<open>The number of iterations of the loop that a trace shows.\<close>

definition iterations :: "trace \<Rightarrow> nat" where
  "iterations tr = length (filter (\<lambda>ev. ev = iteration_line) tr)"

text \<open>The counters that a loop body leaves.\<close>

definition counters_of :: "loop_ctl \<Rightarrow> counters" where
  "counters_of ctl = (case ctl of Continue c \<Rightarrow> c | Break c \<Rightarrow> c)"

text \<open>A computation emits \<open>P\<close> then \<open>Q\<close> when what it appends is events that satisfy
  \<open>P\<close> followed by events that satisfy \<open>Q\<close>.\<close>

definition emits2 :: "(event \<Rightarrow> bool) \<Rightarrow> (event \<Rightarrow> bool) \<Rightarrow> 'a io \<Rightarrow> bool" where
  "emits2 P Q m =
     (\<forall>env tr. \<exists>first second. snd (m env tr) = tr @ first @ second
        \<and> list_all P first \<and> list_all Q second)"









text \<open>The text that a call types into the document: the text of BotCity's
  \<^verbatim>\<open>type_text\<close>, and the text of PyAutoGUI's \<^verbatim>\<open>typewrite\<close> at the interval of the
  typing method (the path that is typed into the Save dialog goes at another interval).\<close>

fun typed_text :: "action \<Rightarrow> string option" where
  "typed_text (TypeText t) = Some t"
| "typed_text (Typewrite t interval) = (if interval = 10 then Some t else None)"
| "typed_text a = None"

text \<open>The texts that a trace shows as typed into the document, in their order: those of
  the typing calls that returned.\<close>

fun typed_by :: "event \<Rightarrow> string option" where
  "typed_by (Ext a (Ret v)) = typed_text a"
| "typed_by ev = None"

definition typed_texts :: "trace \<Rightarrow> string list" where
  "typed_texts tr = List.map_filter typed_by tr"

text \<open>The paths that a trace shows as entered in the Save dialog, in their order: the
  texts of the \<^verbatim>\<open>typewrite\<close> calls at the interval of \<^verbatim>\<open>save_document\<close> that
  returned.\<close>

fun dialog_path :: "event \<Rightarrow> string option" where
  "dialog_path (Ext (Typewrite p interval) (Ret v)) = (if interval = 20 then Some p else None)"
| "dialog_path ev = None"

definition dialog_paths :: "trace \<Rightarrow> string list" where
  "dialog_paths tr = List.map_filter dialog_path tr"
section \<open>Concrete bots, posts and environments\<close>

definition example_bot :: bot where
  "example_bot =
     \<lparr>project_dir = ''tjm-project'', api_url = ''https://jsonplaceholder.typicode.com/posts''\<rparr>"

text \<open>A world in which every call returns, the launch succeeds and every file is found.\<close>

definition env_fine :: environment where
  "env_fine tr a =
     (case a of
        Execute p \<Rightarrow> Ret (PBool True)
      | PathExists p \<Rightarrow> Ret (PBool True)
      | StatSize p \<Rightarrow> Ret (PInt 300)
      | Glob d p \<Rightarrow> Ret (PList [])
      | _ \<Rightarrow> Ret PNone)"

text \<open>A world in which the saved file is never there.\<close>

definition env_no_file :: environment where
  "env_no_file tr a =
     (case a of
        PathExists p \<Rightarrow> Ret (PBool False)
      | _ \<Rightarrow> Ret PNone)"

text \<open>A world in which the keystroke that opens the Save dialog fails.\<close>

definition env_no_dialog :: environment where
  "env_no_dialog tr a =
     (case a of
        Hotkey k1 k2 \<Rightarrow> Raise OtherError
      | _ \<Rightarrow> Ret PNone)"

text \<open>A world in which the keystroke that confirms an overwrite, the \<^verbatim>\<open>enter\<close> pressed
  right after the pause of one second, fails, and the file is found all the same.\<close>

definition env_confirm_fails :: environment where
  "env_confirm_fails tr a =
     (if a = Press ''enter'' \<and> tr \<noteq> [] \<and> last tr = Ext (Sleep 1000) (Ret PNone)
      then Raise OtherError
      else env_fine tr a)"

text \<open>A world without a network connection.\<close>

definition env_offline :: environment where
  "env_offline tr a =
     (case a of
        RequestsGet url timeout \<Rightarrow> Raise ConnectionError
      | _ \<Rightarrow> Ret PNone)"

text \<open>Two posts as the API gives them, and a world in which the API's response is these
  two posts and everything else goes well.\<close>

definition post_a :: pyval where
  "post_a =
     PDict [(''userId'', PInt 1), (''id'', PInt 1), (''title'', PStr ''sunt aut''),
            (''body'', PStr ''quia et'')]"

definition post_b :: pyval where
  "post_b =
     PDict [(''userId'', PInt 1), (''id'', PInt 2), (''title'', PStr ''qui est''),
            (''body'', PStr ''est rerum'')]"

definition env_two_posts :: environment where
  "env_two_posts tr a =
     (case a of
        ResponseJson \<Rightarrow> Ret (PList [post_a, post_b])
      | _ \<Rightarrow> env_fine tr a)"

text \<open>A world in which the API's response is a single post, with the id 42.\<close>

definition env_post_42 :: environment where
  "env_post_42 tr a =
     (case a of
        ResponseJson \<Rightarrow>
          Ret (PList [PDict [(''userId'', PInt 5), (''id'', PInt 42),
                             (''title'', PStr ''sunt aut''), (''body'', PStr ''quia et'')]])
      | _ \<Rightarrow> env_fine tr a)"

text \<open>A world in which the API's response is twelve posts, with the ids 1 to 12.\<close>

definition numbered_post :: "nat \<Rightarrow> pyval" where
  "numbered_post k =
     PDict [(''userId'', PInt 1), (''id'', PInt (int k)), (''title'', PStr ''sunt aut''),
            (''body'', PStr ''quia et'')]"

definition env_twelve_posts :: environment where
  "env_twelve_posts tr a =
     (case a of
        ResponseJson \<Rightarrow> Ret (PList (map numbered_post [1, 2, 3, 4, 5, 6, 7, 8, 9, 10, 11, 12]))
      | _ \<Rightarrow> env_fine tr a)"

text \<open>A world in which the operator presses Ctrl+C once: during the keystroke that
  confirms an overwrite, the \<^verbatim>\<open>enter\<close> pressed right after the pause of one second,
  while the first post is being saved (no file has been found yet). The API's response is
  the two posts, and everything else goes well.\<close>

definition env_interrupted_once :: environment where
  "env_interrupted_once tr a =
     (if a = Press ''enter'' \<and> tr \<noteq> [] \<and> last tr = Ext (Sleep 1000) (Ret PNone)
         \<and> saved_files tr = []
      then Raise KeyboardInterrupt
      else env_two_posts tr a)"

text \<open>A world in which the API's response is not JSON.\<close>

definition env_bad_json :: environment where
  "env_bad_json tr a =
     (case a of
        ResponseJson \<Rightarrow> Raise JSONDecodeError
      | _ \<Rightarrow> Ret PNone)"

text \<open>A world in which the operator presses Ctrl+C while the text of the first post is
  being typed.\<close>

definition env_interrupted_typing :: environment where
  "env_interrupted_typing tr a =
     (case a of
        TypeText t \<Rightarrow> Raise KeyboardInterrupt
      | _ \<Rightarrow> env_two_posts tr a)"


text \<open>A world without a network connection in which the operator presses Ctrl+C during
  the keystroke that closes the application.\<close>

definition env_offline_interrupted :: environment where
  "env_offline_interrupted tr a =
     (case a of
        RequestsGet url timeout \<Rightarrow> Raise ConnectionError
      | Hotkey k1 k2 \<Rightarrow> Raise KeyboardInterrupt
      | _ \<Rightarrow> Ret PNone)"
section \<open>Reasoning about computations\<close>

lemmas io_defs = io_return_def io_raise_def io_bind_def thn_def try_catch_def try_except_def
  try_pass_def lift_def call_def do_call_def log_line_def

subsection \<open>What a computation appends to the trace\<close>

lemma emitsD: "emits P m \<Longrightarrow> \<exists>seg. snd (m env tr) = tr @ seg \<and> list_all P seg"
  by (simp add: emits_def)

lemma emits_weaken: "emits P m \<Longrightarrow> (\<And>ev. P ev \<Longrightarrow> Q ev) \<Longrightarrow> emits Q m"
  unfolding emits_def by (meson list.pred_mono_strong)

lemma emits_return: "emits P (io_return x)"
  by (simp add: emits_def io_return_def)

lemma emits_raise: "emits P (io_raise e)"
  by (simp add: emits_def io_raise_def)

lemma emits_lift: "emits P (lift r)"
  by (simp add: emits_def lift_def)

lemma emits_log: "P (Log l msg) \<Longrightarrow> emits P (log_line l msg)"
  by (simp add: emits_def log_line_def)

lemma emits_call: "(\<And>out. P (Ext a out)) \<Longrightarrow> emits P (call a)"
  by (simp add: emits_def call_def split: outcome.splits)

lemma emits_bind:
  assumes "emits P m" and "\<And>x. emits P (f x)"
  shows "emits P (io_bind m f)"
  unfolding emits_def
proof (intro allI)
  fix env tr
  obtain s1 where s1: "snd (m env tr) = tr @ s1" "list_all P s1"
    using emitsD [OF assms(1)] by blast
  show "\<exists>seg. snd (io_bind m f env tr) = tr @ seg \<and> list_all P seg"
  proof (cases "m env tr")
    case (Pair r tr1)
    with s1 have tr1: "tr1 = tr @ s1" by simp
    show ?thesis
    proof (cases r)
      case (Inl e)
      with Pair tr1 s1 show ?thesis by (simp add: io_bind_def)
    next
      case (Inr x)
      obtain s2 where s2: "snd (f x env tr1) = tr1 @ s2" "list_all P s2"
        using emitsD [OF assms(2)] by blast
      with Pair Inr tr1 s1 show ?thesis by (simp add: io_bind_def)
    qed
  qed
qed

lemma emits_thn: "emits P m \<Longrightarrow> emits P k \<Longrightarrow> emits P (thn m k)"
  by (simp add: thn_def emits_bind)

lemma emits_do_call: "(\<And>out. P (Ext a out)) \<Longrightarrow> emits P (do_call a)"
  by (simp add: do_call_def emits_bind emits_call emits_return)

lemma emits_try_catch:
  assumes "emits P m" and "\<And>e. emits P (h e)"
  shows "emits P (try_catch m h)"
  unfolding emits_def
proof (intro allI)
  fix env tr
  obtain s1 where s1: "snd (m env tr) = tr @ s1" "list_all P s1"
    using emitsD [OF assms(1)] by blast
  show "\<exists>seg. snd (try_catch m h env tr) = tr @ seg \<and> list_all P seg"
  proof (cases "m env tr")
    case (Pair r tr1)
    with s1 have tr1: "tr1 = tr @ s1" by simp
    show ?thesis
    proof (cases r)
      case (Inr x)
      with Pair tr1 s1 show ?thesis by (simp add: try_catch_def)
    next
      case (Inl e)
      obtain s2 where s2: "snd (h e env tr1) = tr1 @ s2" "list_all P s2"
        using emitsD [OF assms(2)] by blast
      with Pair Inl tr1 s1 show ?thesis by (simp add: try_catch_def)
    qed
  qed
qed

lemma emits_if: "emits P a \<Longrightarrow> emits P b \<Longrightarrow> emits P (if c then a else b)"
  by simp

lemma emits_try_except:
  "emits P m \<Longrightarrow> (\<And>e. emits P (h e)) \<Longrightarrow> emits P (try_except m h)"
  by (simp add: try_except_def emits_try_catch emits_raise)

lemma emits_try_pass: "emits P m \<Longrightarrow> emits P (try_pass m)"
  by (simp add: try_pass_def emits_try_catch emits_return)

lemma emits_seq: "list_all (emits P) ms \<Longrightarrow> emits P (seq ms)"
  by (induction ms) (simp_all add: emits_return emits_thn)

lemmas emits_intros = emits_return emits_raise emits_lift emits_log emits_call emits_do_call
  emits_bind emits_thn emits_try_catch emits_try_except emits_try_pass emits_if

lemma emits_prefix: "emits (\<lambda>ev. True) m \<Longrightarrow> prefix tr (snd (m env tr))"
  by (metis emitsD prefixI)

subsection \<open>What a computation raises\<close>

lemma raises_onlyD: "raises_only E m \<Longrightarrow> fst (m env tr) = Inl e \<Longrightarrow> e \<in> E"
  by (simp add: raises_only_def)

lemma raises_only_return: "raises_only E (io_return x)"
  by (simp add: raises_only_def io_return_def)

lemma raises_only_log: "raises_only E (log_line l msg)"
  by (simp add: raises_only_def log_line_def)

lemma raises_only_raise: "e \<in> E \<Longrightarrow> raises_only E (io_raise e)"
  by (simp add: raises_only_def io_raise_def)

lemma raises_only_bind:
  "raises_only E m \<Longrightarrow> (\<And>x. raises_only E (f x)) \<Longrightarrow> raises_only E (io_bind m f)"
  unfolding raises_only_def io_bind_def
  by (auto split: prod.splits sum.splits) (metis fst_conv)

lemma raises_only_thn: "raises_only E m \<Longrightarrow> raises_only E k \<Longrightarrow> raises_only E (thn m k)"
  by (simp add: thn_def raises_only_bind)

lemma raises_only_try_catch: "(\<And>e. raises_only E (h e)) \<Longrightarrow> raises_only E (try_catch m h)"
  unfolding raises_only_def try_catch_def
  by (auto split: prod.splits sum.splits)

lemma raises_only_try_except:
  "(\<And>e. raises_only E (h e)) \<Longrightarrow> KeyboardInterrupt \<in> E \<Longrightarrow> raises_only E (try_except m h)"
  unfolding try_except_def
  by (rule raises_only_try_catch) (simp add: is_Exception_def raises_only_raise)

lemma raises_only_try_pass: "raises_only E (try_pass m)"
  unfolding try_pass_def by (rule raises_only_try_catch) (rule raises_only_return)

lemma raises_only_if: "raises_only E a \<Longrightarrow> raises_only E b \<Longrightarrow> raises_only E (if c then a else b)"
  by simp

lemmas raises_only_intros = raises_only_return raises_only_log raises_only_thn
  raises_only_try_pass raises_only_if

subsection \<open>What a computation raises when the operator does not interrupt\<close>

lemma calmD: "calm env m \<Longrightarrow> fst (m env tr) \<noteq> Inl KeyboardInterrupt"
  by (simp add: calm_def)

lemma calm_return: "calm env (io_return x)"
  by (simp add: calm_def io_return_def)

lemma calm_log: "calm env (log_line l msg)"
  by (simp add: calm_def log_line_def)

lemma calm_raise: "e \<noteq> KeyboardInterrupt \<Longrightarrow> calm env (io_raise e)"
  by (simp add: calm_def io_raise_def)

lemma calm_lift: "r \<noteq> Inl KeyboardInterrupt \<Longrightarrow> calm env (lift r)"
  by (simp add: calm_def lift_def)

lemma calm_call: "uninterrupted env \<Longrightarrow> calm env (call a)"
  by (auto simp: calm_def call_def uninterrupted_def split: outcome.splits)

lemma calm_bind: "calm env m \<Longrightarrow> (\<And>x. calm env (f x)) \<Longrightarrow> calm env (io_bind m f)"
  unfolding calm_def io_bind_def
  by (auto split: prod.splits sum.splits) (metis fst_conv)+

lemma calm_thn: "calm env m \<Longrightarrow> calm env k \<Longrightarrow> calm env (thn m k)"
  by (simp add: thn_def calm_bind)

lemma calm_do_call: "uninterrupted env \<Longrightarrow> calm env (do_call a)"
  by (simp add: do_call_def calm_bind calm_call calm_return)

lemma calm_try_catch:
  "calm env m \<Longrightarrow> (\<And>e. e \<noteq> KeyboardInterrupt \<Longrightarrow> calm env (h e)) \<Longrightarrow> calm env (try_catch m h)"
  unfolding calm_def try_catch_def
  by (auto split: prod.splits sum.splits) (metis fst_conv)+

lemma calm_try_except:
  "calm env m \<Longrightarrow> (\<And>e. calm env (h e)) \<Longrightarrow> calm env (try_except m h)"
  unfolding try_except_def
  by (rule calm_try_catch) (simp_all add: is_Exception_def)

lemma calm_try_pass: "calm env (try_pass m)"
  by (auto simp: calm_def try_pass_def try_catch_def io_return_def split: prod.splits sum.splits)

lemma calm_if: "calm env a \<Longrightarrow> calm env b \<Longrightarrow> calm env (if c then a else b)"
  by simp

lemma calm_seq: "list_all (calm env) ms \<Longrightarrow> calm env (seq ms)"
  by (induction ms) (simp_all add: calm_return calm_thn)

lemmas calm_intros = calm_return calm_log calm_call calm_do_call calm_bind calm_thn
  calm_try_except calm_try_pass calm_if calm_raise

subsection \<open>The methods of the bot\<close>

lemma interrupt_only_launch_botcity: "raises_only {KeyboardInterrupt} launch_notepad_botcity"
  unfolding launch_notepad_botcity_def
  by (rule raises_only_try_except) (simp_all add: raises_only_intros)

lemma interrupt_only_launch_pyautogui: "raises_only {KeyboardInterrupt} launch_notepad_pyautogui"
  unfolding launch_notepad_pyautogui_def
  by (rule raises_only_try_except) (simp_all add: raises_only_intros)

lemma interrupt_only_type_botcity: "raises_only {KeyboardInterrupt} (type_text_botcity text)"
  unfolding type_text_botcity_def
  by (rule raises_only_try_except) (simp_all add: raises_only_intros)

lemma interrupt_only_type_pyautogui: "raises_only {KeyboardInterrupt} (type_text_pyautogui text)"
  unfolding type_text_pyautogui_def
  by (rule raises_only_try_except) (simp_all add: raises_only_intros)


lemma interrupt_only_create: "raises_only {KeyboardInterrupt} create_new_document"
  unfolding create_new_document_def
  by (rule raises_only_try_except) (simp_all add: raises_only_intros)

lemma interrupt_only_close: "raises_only {KeyboardInterrupt} close_notepad"
  unfolding close_notepad_def
  by (rule raises_only_try_except) (simp_all add: raises_only_intros)

lemma emits_close_notepad:
  "emits (step_event {Hotkey ''alt'' ''f4'', Sleep 500, Press ''n''}) close_notepad"
  unfolding close_notepad_def
  by (intro emits_intros emits_seq) (simp_all add: step_event_def iteration_line_def nl_def emits_intros emits_seq)

lemma emits_announce: "emits (step_event {Print []}) announce"
  unfolding announce_def
  by (intro emits_intros emits_seq) (simp_all add: step_event_def iteration_line_def nl_def emits_intros)

lemma emits_fetch:
  "emits (step_event {RequestsGet (api_url self) 30, RaiseForStatus, ResponseJson})
     (fetch_posts_data self)"
  unfolding fetch_posts_data_def
  by (intro emits_intros) (simp_all add: step_event_def iteration_line_def nl_def)

lemma grows_launch_pyautogui: "prefix tr (snd (launch_notepad_pyautogui env tr))"
  unfolding launch_notepad_pyautogui_def
  by (rule emits_prefix) (intro emits_intros emits_seq, simp_all add: emits_intros)

lemma grows_type_pyautogui: "prefix tr (snd (type_text_pyautogui text env tr))"
  unfolding type_text_pyautogui_def
  by (rule emits_prefix) (intro emits_intros emits_seq, simp_all add: emits_intros)

lemma calm_close: "uninterrupted env \<Longrightarrow> calm env close_notepad"
  unfolding close_notepad_def
  by (intro calm_intros calm_seq) (simp_all add: calm_intros)

lemma close_notepad_returns:
  assumes "uninterrupted env"
  shows "fst (close_notepad env tr) = Inr ()"
proof (cases "fst (close_notepad env tr)")
  case (Inl e)
  then have "e = KeyboardInterrupt"
    using raises_onlyD [OF interrupt_only_close] by fastforce
  with Inl calmD [OF calm_close [OF assms], of tr] show ?thesis by simp
next
  case (Inr u)
  then show ?thesis by simp
qed

lemma step_event_mono: "step_event A ev \<Longrightarrow> A \<subseteq> B \<Longrightarrow> step_event B ev"
  by (auto simp: step_event_def split: event.splits)

lemma emits_step_mono: "emits (step_event A) m \<Longrightarrow> A \<subseteq> B \<Longrightarrow> emits (step_event B) m"
  by (erule emits_weaken) (erule step_event_mono)

lemma emits_seg:
  assumes "emits P m" and "m env tr = (r, tr')"
  shows "\<exists>seg. tr' = tr @ seg \<and> list_all P seg"
  using emitsD [OF assms(1), of env tr] assms(2) by simp

section \<open>The methods of the bot, one by one\<close>

lemma bind_lift_Inr: "io_bind (lift (Inr x)) f = f x"
  by (rule ext, rule ext) (simp add: io_bind_def lift_def)

lemma bind_lift_Inl: "io_bind (lift (Inl e)) f = io_raise e"
  by (rule ext, rule ext) (simp add: io_bind_def lift_def io_raise_def)

lemmas step_simps = step_event_def iteration_line_def nl_def

lemma emits_type_text_hybrid: "emits (step_event (typing_actions text)) (type_text_hybrid text)"
  unfolding type_text_hybrid_def type_text_botcity_def type_text_pyautogui_def
  by (intro emits_intros emits_seq) (simp_all add: step_simps typing_actions_def emits_intros)

lemma emits_save_document:
  "emits (step_event (saving_actions (path_join (project_dir self) filename)))
     (save_document self filename)"
  unfolding save_document_def
  by (intro emits_intros emits_seq)
    (simp_all add: step_simps saving_actions_def emits_intros emits_seq)

lemma emits_create_new_document: "emits (step_event new_document_actions) create_new_document"
  unfolding create_new_document_def
  by (intro emits_intros emits_seq)
    (simp_all add: step_simps new_document_actions_def emits_intros emits_seq)

lemma emits_launch:
  "emits (step_event {Execute ''notepad.exe'', Wait 3000, Hotkey ''win'' ''r'', Sleep 1000,
       Typewrite ''notepad'' 100, Press ''enter'', Sleep 2000, Hotkey ''win'' ''up''})
     launch_notepad"
  unfolding launch_notepad_def launch_notepad_botcity_def launch_notepad_pyautogui_def
  by (intro emits_intros emits_seq) (simp_all add: step_simps emits_intros)

lemma calm_type_text_hybrid: "uninterrupted env \<Longrightarrow> calm env (type_text_hybrid text)"
  unfolding type_text_hybrid_def type_text_botcity_def type_text_pyautogui_def
  by (intro calm_intros calm_seq) (simp_all add: calm_intros)

lemma calm_save_document: "uninterrupted env \<Longrightarrow> calm env (save_document self filename)"
  unfolding save_document_def
  by (intro calm_intros calm_seq) (simp_all add: calm_intros)

lemma calm_create_new_document: "uninterrupted env \<Longrightarrow> calm env create_new_document"
  unfolding create_new_document_def
  by (intro calm_intros calm_seq) (simp_all add: calm_intros)

lemma interrupt_only_type_hybrid: "raises_only {KeyboardInterrupt} (type_text_hybrid text)"
  unfolding type_text_hybrid_def
  by (rule raises_only_try_except) (simp_all add: raises_only_intros)

lemma post_filename_calm: "post_filename post i \<noteq> Inl KeyboardInterrupt"
  by (simp add: post_filename_def py_get_def split: pyval.splits)

lemma py_get_calm: "py_get v k d \<noteq> Inl KeyboardInterrupt"
  by (simp add: py_get_def split: pyval.splits)

lemma py_slice_calm: "py_slice n v \<noteq> Inl KeyboardInterrupt"
  by (simp add: py_slice_def split: pyval.splits)

lemma format_blog_post_calm: "format_blog_post post \<noteq> Inl KeyboardInterrupt"
  by (auto simp: format_blog_post_def py_get_def py_title_def split: pyval.splits sum.splits)

lemma calm_process_single_post:
  "uninterrupted env \<Longrightarrow> calm env (process_single_post self post i)"
  unfolding process_single_post_def
  by (intro calm_intros calm_lift calm_save_document calm_type_text_hybrid
      calm_create_new_document post_filename_calm py_get_calm py_slice_calm
      format_blog_post_calm)
    (simp_all add: calm_intros)

lemma saved_files_append [simp]: "saved_files (a @ b) = saved_files a @ saved_files b"
  by (simp add: saved_files_def map_filter_def)

lemma saved_files_Nil [simp]: "saved_files [] = []"
  by (simp add: saved_files_def map_filter_def)

lemma saved_files_Log [simp]: "saved_files (Log l msg # tr) = saved_files tr"
  by (simp add: saved_files_def map_filter_def)

lemma saved_files_Ext [simp]:
  "saved_files (Ext a out # tr) =
     (case found_file (Ext a out) of Some p \<Rightarrow> p # saved_files tr | None \<Rightarrow> saved_files tr)"
  by (simp add: saved_files_def map_filter_def split: option.splits)

lemma found_file_other: "(\<And>p. a \<noteq> PathExists p) \<Longrightarrow> found_file (Ext a out) = None"
  by (cases a; cases out) auto

lemma saved_files_none:
  assumes "list_all (step_event A) seg" and "\<And>p. PathExists p \<notin> A"
  shows "saved_files seg = []"
  using assms(1)
proof (induction seg)
  case Nil
  then show ?case by simp
next
  case (Cons ev seg)
  show ?case
  proof (cases ev)
    case (Ext a out)
    with Cons.prems have "a \<in> A" by (simp add: step_event_def)
    with assms(2) have "\<And>p. a \<noteq> PathExists p" by blast
    then have "found_file (Ext a out) = None" by (rule found_file_other)
    with Ext Cons show ?thesis by simp
  next
    case (Log l msg)
    with Cons show ?thesis by simp
  qed
qed

lemma saved_files_unchanged:
  assumes "emits (step_event A) m" and "\<And>p. PathExists p \<notin> A" and "m env tr = (r, tr')"
  shows "saved_files tr' = saved_files tr"
proof -
  obtain seg where "tr' = tr @ seg" "list_all (step_event A) seg"
    using emits_seg [OF assms(1) assms(3)] by blast
  then show ?thesis using saved_files_none [OF _ assms(2)] by simp
qed

lemma saved_files_typing:
  "type_text_hybrid text env tr = (r, tr') \<Longrightarrow> saved_files tr' = saved_files tr"
  by (rule saved_files_unchanged [OF emits_type_text_hybrid]) (simp_all add: typing_actions_def)

lemma saved_files_create:
  "create_new_document env tr = (r, tr') \<Longrightarrow> saved_files tr' = saved_files tr"
  by (rule saved_files_unchanged [OF emits_create_new_document])
    (simp_all add: new_document_actions_def)

lemmas save_unfold = save_document_def try_except_def try_catch_def try_pass_def thn_def
  io_bind_def io_return_def io_raise_def do_call_def call_def log_line_def is_Exception_def

lemma saved_files_save:
  assumes "save_document self filename env tr = (Inr True, tr')"
  shows "saved_files tr' = saved_files tr @ [path_join (project_dir self) filename]"
  using assms
  by (auto simp: save_unfold split: outcome.splits if_splits)

lemmas post_unfold = process_single_post_def try_except_def try_catch_def thn_def
  io_bind_def io_return_def io_raise_def lift_def log_line_def

lemma post_true_saved:
  assumes "process_single_post self post i env tr = (Inr True, tr')"
  shows "\<exists>filename. post_filename post i = Inr filename
      \<and> saved_files tr' = saved_files tr @ [path_join (project_dir self) filename]"
  using assms
  by (auto simp: post_unfold split: sum.splits prod.splits if_splits
      dest!: saved_files_typing saved_files_create saved_files_save)


lemma post_raises: "raises_only {KeyboardInterrupt, AttributeError} (process_single_post self post i)"
  unfolding process_single_post_def
  by (rule raises_only_try_except)
    (auto simp: raises_only_def io_bind_def lift_def thn_def log_line_def io_return_def
      py_get_def split: pyval.splits)

lemma emits_bind_lift:
  "(\<And>x. r = Inr x \<Longrightarrow> emits P (f x)) \<Longrightarrow> emits P (io_bind (lift r) f)"
  by (cases r) (simp_all add: bind_lift_Inr bind_lift_Inl emits_raise)

lemma emits_typing_post:
  "format_blog_post post = Inr text \<Longrightarrow>
     emits (step_event (post_typing_actions post)) (type_text_hybrid text)"
  using emits_type_text_hybrid [of "text"] by (simp add: post_typing_actions_def)

lemma emits_saving_post:
  "post_filename post i = Inr filename \<Longrightarrow>
     emits (step_event (post_saving_actions self post i)) (save_document self filename)"
  by (rule emits_step_mono [OF emits_save_document]) (simp add: post_saving_actions_def)

lemma emits_create_post:
  "emits (step_event (post_saving_actions self post i)) create_new_document"
  by (rule emits_step_mono [OF emits_create_new_document]) (simp add: post_saving_actions_def)

lemma emits2_second: "emits Q m \<Longrightarrow> emits2 P Q m"
  unfolding emits2_def emits_def
  by (metis append_Nil list.pred_inject(1))

lemma emits2_bind_first:
  assumes "emits P m" and "\<And>x. emits2 P Q (f x)"
  shows "emits2 P Q (io_bind m f)"
  unfolding emits2_def
proof (intro allI)
  fix env tr
  obtain s1 where s1: "snd (m env tr) = tr @ s1" "list_all P s1"
    using emitsD [OF assms(1)] by blast
  show "\<exists>first second. snd (io_bind m f env tr) = tr @ first @ second
      \<and> list_all P first \<and> list_all Q second"
  proof (cases "m env tr")
    case (Pair r tr1)
    with s1 have tr1: "tr1 = tr @ s1" by simp
    show ?thesis
    proof (cases r)
      case (Inl e)
      have "snd (io_bind m f env tr) = tr @ s1 @ []"
        using Pair Inl tr1 by (simp add: io_bind_def)
      with s1 show ?thesis by (metis list.pred_inject(1))
    next
      case (Inr x)
      obtain a b where ab: "snd (f x env tr1) = tr1 @ a @ b" "list_all P a" "list_all Q b"
        using assms(2) [of x] unfolding emits2_def by blast
      have "snd (io_bind m f env tr) = tr @ (s1 @ a) @ b"
        using Pair Inr tr1 ab by (simp add: io_bind_def)
      moreover have "list_all P (s1 @ a)" using s1 ab by simp
      ultimately show ?thesis using ab by blast
    qed
  qed
qed

lemma emits2_bind_lift:
  "(\<And>x. r = Inr x \<Longrightarrow> emits2 P Q (f x)) \<Longrightarrow> emits2 P Q (io_bind (lift r) f)"
  by (cases r) (simp_all add: bind_lift_Inr bind_lift_Inl emits2_second emits_raise)

lemma emits2_thn_first: "emits P m \<Longrightarrow> emits2 P Q k \<Longrightarrow> emits2 P Q (thn m k)"
  by (simp add: thn_def emits2_bind_first)

lemma emits2_try_catch:
  assumes "emits2 P Q m" and "\<And>e. emits Q (h e)"
  shows "emits2 P Q (try_catch m h)"
  unfolding emits2_def
proof (intro allI)
  fix env tr
  obtain a b where ab: "snd (m env tr) = tr @ a @ b" "list_all P a" "list_all Q b"
    using assms(1) unfolding emits2_def by blast
  show "\<exists>first second. snd (try_catch m h env tr) = tr @ first @ second
      \<and> list_all P first \<and> list_all Q second"
  proof (cases "m env tr")
    case (Pair r tr1)
    with ab have tr1: "tr1 = tr @ a @ b" by simp
    show ?thesis
    proof (cases r)
      case (Inr x)
      with Pair tr1 have "snd (try_catch m h env tr) = tr @ a @ b"
        by (simp add: try_catch_def)
      with ab show ?thesis by blast
    next
      case (Inl e)
      obtain s where s: "snd (h e env tr1) = tr1 @ s" "list_all Q s"
        using emitsD [OF assms(2)] by blast
      have "snd (try_catch m h env tr) = tr @ a @ (b @ s)"
        using Pair Inl tr1 s by (simp add: try_catch_def)
      moreover have "list_all Q (b @ s)" using ab s by simp
      ultimately show ?thesis using ab by blast
    qed
  qed
qed

lemma emits2_try_except:
  "emits2 P Q m \<Longrightarrow> (\<And>e. emits Q (h e)) \<Longrightarrow> emits2 P Q (try_except m h)"
  by (simp add: try_except_def emits2_try_catch emits_raise)

lemma typing_then_saving:
  "emits2 (step_event (post_typing_actions post)) (step_event (post_saving_actions self post i))
     (process_single_post self post i)"
  unfolding process_single_post_def
  apply (rule emits2_try_except)
   apply (intro emits2_bind_lift emits2_thn_first emits_log)
     apply (simp add: step_simps)
    apply (simp add: step_simps)
   apply (rule emits2_bind_first)
    apply (erule emits_typing_post)
   apply (rule emits2_second)
   apply (intro emits_intros emits_saving_post emits_create_post)
         apply (simp_all add: step_simps)
  apply (intro emits_intros)
  apply (simp add: step_simps)
  done

lemma emits_two_phases: "emits2 P Q m \<Longrightarrow> emits (\<lambda>ev. P ev \<or> Q ev) m"
  unfolding emits2_def emits_def
  by (metis (mono_tags, lifting) append.assoc list.pred_mono_strong list_all_append)

lemma step_event_Un: "step_event (A \<union> B) ev = (step_event A ev \<or> step_event B ev)"
  by (auto simp: step_event_def split: event.splits)

lemma emits_process_single_post:
  "emits (step_event (post_typing_actions post \<union> post_saving_actions self post i))
     (process_single_post self post i)"
  using emits_two_phases [OF typing_then_saving] by (simp add: step_event_Un [abs_def])

lemma try_pass_eq: "try_pass m env tr = (Inr (), snd (m env tr))"
  by (simp add: try_pass_def try_catch_def io_return_def split: prod.splits sum.splits)

lemma loop_handler_eq:
  "loop_handler i c e env tr =
     (if e = KeyboardInterrupt
      then (Inr (Break c), tr @ [Log Info '' User interrupted automation''])
      else (Inr (Continue (c\<lparr>failed_posts := failed_posts c + 1\<rparr>)),
            snd (create_new_document env (tr @ [Log Error '' Post {} failed: {}'']))))"
  by (simp add: loop_handler_def thn_def io_bind_def log_line_def io_return_def try_pass_eq)

lemma loop_handler_returns: "\<exists>ctl. fst (loop_handler i c e env tr) = Inr ctl"
  by (simp add: loop_handler_eq)

lemma loop_body_eq:
  "loop_body self post i c env tr =
     (case process_single_post self post i env (tr @ [iteration_line]) of
        (Inl e, tr1) \<Rightarrow> loop_handler i c e env tr1
      | (Inr done, tr1) \<Rightarrow>
          (let c' = (if done then c\<lparr>successful_posts := successful_posts c + 1\<rparr>
                     else c\<lparr>failed_posts := failed_posts c + 1\<rparr>)
           in case env tr1 (Sleep 1000) of
                Ret v \<Rightarrow> (Inr (Continue c'), tr1 @ [Ext (Sleep 1000) (Ret v)])
              | Raise e \<Rightarrow> loop_handler i c' e env (tr1 @ [Ext (Sleep 1000) (Raise e)])))"
proof (cases "process_single_post self post i env (tr @ [iteration_line])")
  case (Pair r tr1)
  note psp = Pair [unfolded iteration_line_def]
  show ?thesis
  proof (cases r)
    case (Inl e)
    with psp show ?thesis
      unfolding loop_body_def iteration_line_def
      by (simp add: thn_def io_bind_def log_line_def try_catch_def loop_handler_eq)
  next
    case (Inr ok)
    show ?thesis
    proof (cases "env tr1 (Sleep 1000)")
      case (Ret v)
      with psp Inr show ?thesis
        unfolding loop_body_def iteration_line_def
        by (simp add: thn_def io_bind_def log_line_def try_catch_def do_call_def call_def
            io_return_def Let_def)
    next
      case (Raise e)
      with psp Inr show ?thesis
        unfolding loop_body_def iteration_line_def
        by (simp add: thn_def io_bind_def log_line_def try_catch_def do_call_def call_def
            io_return_def Let_def loop_handler_eq)
    qed
  qed
qed

lemma loop_body_returns: "\<exists>ctl tr'. loop_body self post i c env tr = (Inr ctl, tr')"
  by (auto simp: loop_body_eq loop_handler_eq Let_def split: prod.splits sum.splits outcome.splits)


lemma iterations_append [simp]: "iterations (a @ b) = iterations a + iterations b"
  by (simp add: iterations_def)

lemma iterations_Nil [simp]: "iterations [] = 0"
  by (simp add: iterations_def)

lemma iterations_Cons [simp]:
  "iterations (ev # tr) = (if ev = iteration_line then Suc (iterations tr) else iterations tr)"
  by (simp add: iterations_def)

lemma not_iteration_line [simp]:
  "Ext a out \<noteq> iteration_line" "Log Error msg \<noteq> iteration_line"
  "Log Info '' User interrupted automation'' \<noteq> iteration_line"
  by (simp_all add: iteration_line_def nl_def)

lemma iterations_step:
  "list_all (step_event A) seg \<Longrightarrow> iterations seg = 0"
  by (induction seg) (auto simp: step_event_def split: event.splits)

lemma iterations_unchanged:
  assumes "emits (step_event A) m" and "m env tr = (r, tr')"
  shows "iterations tr' = iterations tr"
proof -
  obtain seg where "tr' = tr @ seg" "list_all (step_event A) seg"
    using emits_seg [OF assms] by blast
  then show ?thesis using iterations_step by simp
qed

lemma iterations_snd:
  "emits (step_event A) m \<Longrightarrow> iterations (snd (m env tr)) = iterations tr"
  using iterations_unchanged by (metis prod.collapse)

lemma loop_body_iterations:
  assumes "loop_body self post i c env tr = (r, tr')"
  shows "iterations tr' = iterations tr + 1"
proof (cases "process_single_post self post i env (tr @ [iteration_line])")
  case (Pair r1 tr1)
  have tr1: "iterations tr1 = iterations tr + 1"
    using iterations_unchanged [OF emits_process_single_post Pair] by simp
  have create: "\<And>t. iterations (snd (create_new_document env t)) = iterations t"
    by (rule iterations_snd [OF emits_create_new_document])
  show ?thesis
    using assms Pair tr1 create
    by (auto simp: loop_body_eq loop_handler_eq Let_def split: sum.splits outcome.splits if_splits)
qed

lemma loop_body_continues:
  assumes "uninterrupted env" and "loop_body self post i c env tr = (Inr ctl, tr')"
  shows "\<exists>c'. ctl = Continue c'"
proof (cases "process_single_post self post i env (tr @ [iteration_line])")
  case (Pair r1 tr1)
  have "r1 \<noteq> Inl KeyboardInterrupt"
    using calmD [OF calm_process_single_post [OF assms(1)], of self post i "tr @ [iteration_line]"]
      Pair by simp
  moreover have "\<And>t. env t (Sleep 1000) \<noteq> Raise KeyboardInterrupt"
    using assms(1) by (simp add: uninterrupted_def)
  ultimately show ?thesis
    using assms(2) Pair
    by (auto simp: loop_body_eq loop_handler_eq Let_def split: sum.splits outcome.splits if_splits)
qed

lemma process_posts_iterations:
  assumes "uninterrupted env"
  shows "iterations (snd (process_posts self posts i c env tr)) = iterations tr + length posts"
proof (induction posts arbitrary: i c tr)
  case Nil
  then show ?case by (simp add: io_return_def)
next
  case (Cons post rest)
  obtain ctl tr1 where body: "loop_body self post i c env tr = (Inr ctl, tr1)"
    using loop_body_returns by blast
  obtain c1 where ctl: "ctl = Continue c1"
    using loop_body_continues [OF assms body] by blast
  have "iterations tr1 = iterations tr + 1"
    using loop_body_iterations [OF body] .
  with body ctl Cons.IH [of "i + 1" c1 tr1] show ?case by (simp add: io_bind_def)
qed

section \<open>The whole run, step by step\<close>

lemma emits_report_files: "emits (step_event (range StatSize)) (report_files files)"
  by (induction files) (simp_all add: emits_intros step_simps)

lemma rule_line_not_iteration:
  "Log Info (nl # replicate 70 CHR ''='') \<noteq> iteration_line"
  "Log Info (replicate 70 CHR ''='') \<noteq> iteration_line"
proof -
  show "Log Info (nl # replicate 70 CHR ''='') \<noteq> iteration_line"
  proof
    assume "Log Info (nl # replicate 70 CHR ''='') = iteration_line"
    then have "length (replicate 70 CHR ''='') = length ''--- Processing {}/10 ---''"
      by (simp add: iteration_line_def)
    then show False by simp
  qed
  show "Log Info (replicate 70 CHR ''='') \<noteq> iteration_line"
  proof
    assume "Log Info (replicate 70 CHR ''='') = iteration_line"
    then have "length (replicate 70 CHR ''='') = length (nl # ''--- Processing {}/10 ---'')"
      by (simp add: iteration_line_def)
    then show False by simp
  qed
qed

lemma emits_final_report:
  "emits (step_event (insert (Glob (project_dir self) ''post *.txt'') (range StatSize)))
     (final_report self)"
proof -
  let ?P = "step_event (insert (Glob (project_dir self) ''post *.txt'') (range StatSize))"
  have files: "\<And>files. emits ?P (report_files files)"
    by (rule emits_step_mono [OF emits_report_files]) auto
  have rules: "emits ?P (log_line Info (nl # replicate 70 CHR ''=''))"
    "emits ?P (log_line Info (replicate 70 CHR ''=''))"
    using rule_line_not_iteration by (simp_all add: emits_log step_event_def)
  have logs: "\<And>msg. msg \<noteq> nl # ''--- Processing {}/10 ---'' \<Longrightarrow> emits ?P (log_line Info msg)"
    by (rule emits_log) (simp add: step_event_def iteration_line_def)
  show ?thesis
    unfolding final_report_def
    by (intro emits_intros emits_seq emits_bind_lift)
      (simp_all add: files rules [unfolded nl_def] logs emits_call nl_def step_event_def)
qed

lemma bind_Inr:
  "io_bind m f env tr = (Inr y, tr') \<Longrightarrow> \<exists>x t. m env tr = (Inr x, t) \<and> f x env t = (Inr y, tr')"
  by (auto simp: io_bind_def split: prod.splits sum.splits)

lemma thn_Inr:
  "thn m k env tr = (Inr y, tr') \<Longrightarrow> \<exists>x t. m env tr = (Inr x, t) \<and> k env t = (Inr y, tr')"
  unfolding thn_def by (rule bind_Inr)

lemma try_reraise_Inr:
  "try_except m (\<lambda>e. thn (log_line l msg) (io_raise e)) env tr = (Inr x, tr')
    \<Longrightarrow> m env tr = (Inr x, tr')"
  by (auto simp: try_except_def try_catch_def thn_def io_bind_def log_line_def io_raise_def
      split: prod.splits sum.splits if_splits)

lemma lift_Inr: "lift r env tr = (Inr x, tr') \<Longrightarrow> r = Inr x \<and> tr' = tr"
  by (simp add: lift_def)

lemma log_line_eq: "log_line l msg env tr = (r, tr') \<Longrightarrow> tr' = tr @ [Log l msg]"
  by (auto simp: log_line_def)

lemma return_Inr: "io_return x env tr = (Inr y, tr') \<Longrightarrow> y = x \<and> tr' = tr"
  by (simp add: io_return_def)

lemma automation_steps_returns:
  assumes "automation_steps self env tr = (Inr c, tr')"
  obtains t1 v t2 t3 posts t4 t5 where
    "announce env tr = (Inr (), t1)"
    "fetch_posts_data self env t1 = (Inr v, t2)"
    "launch_notepad env t2 = (Inr True, t3)"
    "py_iter v = Inr posts"
    "process_posts self posts 1 \<lparr>successful_posts = 0, failed_posts = 0\<rparr> env
       (t3 @ [Log Info '' Processing {} posts...'']) = (Inr c, t4)"
    "close_notepad env t4 = (Inr (), t5)"
    "final_report self env t5 = (Inr (), tr')"
proof -
  from assms [unfolded automation_steps_def]
  obtain u1 t1 where a1: "announce env tr = (Inr u1, t1)"
    and r1: "io_bind
       (try_except (fetch_posts_data self)
          (\<lambda>e. thn (log_line Error '' API fetch failed: {}'') (io_raise e)))
       (\<lambda>posts_data.
     thn (try_except
            (io_bind launch_notepad (\<lambda>launched.
               if \<not> launched then io_raise LaunchFailed else io_return ()))
            (\<lambda>e. thn (log_line Error '' Application launch failed: {}'') (io_raise e)))
    (io_bind (lift (py_len posts_data)) (\<lambda>n.
     thn (log_line Info '' Processing {} posts...'')
    (io_bind (lift (py_iter posts_data)) (\<lambda>posts.
     io_bind (process_posts self posts 1 \<lparr>successful_posts = 0, failed_posts = 0\<rparr>) (\<lambda>c.
     thn close_notepad
    (thn (final_report self)
    (io_return c)))))))) env t1 = (Inr c, tr')"
    by (blast dest: thn_Inr)
  from bind_Inr [OF r1] obtain v t2 where
    f0: "try_except (fetch_posts_data self)
          (\<lambda>e. thn (log_line Error '' API fetch failed: {}'') (io_raise e)) env t1 = (Inr v, t2)"
    and r2: "thn (try_except
            (io_bind launch_notepad (\<lambda>launched.
               if \<not> launched then io_raise LaunchFailed else io_return ()))
            (\<lambda>e. thn (log_line Error '' Application launch failed: {}'') (io_raise e)))
    (io_bind (lift (py_len v)) (\<lambda>n.
     thn (log_line Info '' Processing {} posts...'')
    (io_bind (lift (py_iter v)) (\<lambda>posts.
     io_bind (process_posts self posts 1 \<lparr>successful_posts = 0, failed_posts = 0\<rparr>) (\<lambda>c.
     thn close_notepad
    (thn (final_report self)
    (io_return c))))))) env t2 = (Inr c, tr')"
    by blast
  have f: "fetch_posts_data self env t1 = (Inr v, t2)"
    using try_reraise_Inr [OF f0] .
  from thn_Inr [OF r2] obtain u3 t3 where
    l0: "try_except
            (io_bind launch_notepad (\<lambda>launched.
               if \<not> launched then io_raise LaunchFailed else io_return ()))
            (\<lambda>e. thn (log_line Error '' Application launch failed: {}'') (io_raise e)) env t2
          = (Inr u3, t3)"
    and r3: "io_bind (lift (py_len v)) (\<lambda>n.
     thn (log_line Info '' Processing {} posts...'')
    (io_bind (lift (py_iter v)) (\<lambda>posts.
     io_bind (process_posts self posts 1 \<lparr>successful_posts = 0, failed_posts = 0\<rparr>) (\<lambda>c.
     thn close_notepad
    (thn (final_report self)
    (io_return c)))))) env t3 = (Inr c, tr')"
    by blast
  have l: "launch_notepad env t2 = (Inr True, t3)"
    using try_reraise_Inr [OF l0]
    by (auto simp: io_bind_def io_raise_def io_return_def split: prod.splits sum.splits if_splits)
  from bind_Inr [OF r3] obtain n where
    r4: "thn (log_line Info '' Processing {} posts...'')
    (io_bind (lift (py_iter v)) (\<lambda>posts.
     io_bind (process_posts self posts 1 \<lparr>successful_posts = 0, failed_posts = 0\<rparr>) (\<lambda>c.
     thn close_notepad
    (thn (final_report self)
    (io_return c))))) env t3 = (Inr c, tr')"
    by (auto dest!: lift_Inr)
  from thn_Inr [OF r4] have
    r5: "io_bind (lift (py_iter v)) (\<lambda>posts.
     io_bind (process_posts self posts 1 \<lparr>successful_posts = 0, failed_posts = 0\<rparr>) (\<lambda>c.
     thn close_notepad
    (thn (final_report self)
    (io_return c)))) env (t3 @ [Log Info '' Processing {} posts...'']) = (Inr c, tr')"
    by (auto dest!: log_line_eq)
  from bind_Inr [OF r5] obtain posts where it: "py_iter v = Inr posts"
    and r6: "io_bind (process_posts self posts 1 \<lparr>successful_posts = 0, failed_posts = 0\<rparr>) (\<lambda>c.
     thn close_notepad
    (thn (final_report self)
    (io_return c))) env (t3 @ [Log Info '' Processing {} posts...'']) = (Inr c, tr')"
    by (auto dest!: lift_Inr)
  from bind_Inr [OF r6] obtain c1 t4 where
    p: "process_posts self posts 1 \<lparr>successful_posts = 0, failed_posts = 0\<rparr> env
       (t3 @ [Log Info '' Processing {} posts...'']) = (Inr c1, t4)"
    and r7: "thn close_notepad (thn (final_report self) (io_return c1)) env t4 = (Inr c, tr')"
    by blast
  from thn_Inr [OF r7] obtain u5 t5 where cl: "close_notepad env t4 = (Inr u5, t5)"
    and r8: "thn (final_report self) (io_return c1) env t5 = (Inr c, tr')"
    by blast
  from thn_Inr [OF r8] obtain u6 t6 where fr: "final_report self env t5 = (Inr u6, t6)"
    and r9: "io_return c1 env t6 = (Inr c, tr')"
    by blast
  from return_Inr [OF r9] have "c = c1" "tr' = t6" by simp_all
  with a1 f l it p cl fr show thesis by (auto intro: that)
qed

lemma fetch_value:
  assumes "fetch_posts_data self env tr = (Inr v, tr')"
  shows "\<exists>posts. Ext ResponseJson (Ret posts) \<in> set (drop (length tr) tr')
      \<and> py_slice 10 posts = Inr v"
  using assms unfolding fetch_posts_data_def
  by (auto simp: io_defs split: prod.splits sum.splits if_splits outcome.splits)

lemma fetch_value_env:
  assumes "fetch_posts_data self env tr = (Inr v, tr')"
  shows "\<exists>t posts. env t ResponseJson = Ret posts \<and> py_slice 10 posts = Inr v"
  using assms unfolding fetch_posts_data_def
  by (auto simp: io_defs split: prod.splits sum.splits if_splits outcome.splits)

lemma fetch_first_ten:
  assumes get: "\<And>t. \<exists>v. env t (RequestsGet (api_url self) 30) = Ret v"
    and status: "\<And>t. \<exists>v. env t RaiseForStatus = Ret v"
    and json: "\<And>t. env t ResponseJson = Ret (PList xs)"
  shows "fst (fetch_posts_data self env tr) = Inr (PList (take 10 xs))"
proof -
  let ?t0 = "tr @ [Log Info '' Fetching posts from JSONPlaceholder API...'',
                   Log Info '' API URL: {}'']"
  obtain v1 where v1: "env ?t0 (RequestsGet (api_url self) 30) = Ret v1"
    using get by blast
  obtain v2 where v2: "env (?t0 @ [Ext (RequestsGet (api_url self) 30) (Ret v1)]) RaiseForStatus
      = Ret v2"
    using status by blast
  show ?thesis
    unfolding fetch_posts_data_def
    using v1 v2 json by (simp add: io_defs py_len_def py_slice_def)
qed

lemma saved_files_snd_create:
  "saved_files (snd (create_new_document env t)) = saved_files t"
  using saved_files_create by (metis prod.collapse)

lemma loop_body_successful:
  assumes "loop_body self post i c env tr = (Inr ctl, tr')"
  shows "successful_posts (counters_of ctl) \<le> successful_posts c + 1"
    and "successful_posts c \<le> successful_posts (counters_of ctl)"
    and "successful_posts (counters_of ctl) = successful_posts c + 1 \<Longrightarrow>
      \<exists>filename. post_filename post i = Inr filename
        \<and> saved_files tr' = saved_files tr @ [path_join (project_dir self) filename]"
proof -
  obtain r1 tr1 where psp: "process_single_post self post i env (tr @ [iteration_line]) = (r1, tr1)"
    by (cases "process_single_post self post i env (tr @ [iteration_line])")
  have saved: "r1 = Inr True \<Longrightarrow>
      \<exists>filename. post_filename post i = Inr filename
        \<and> saved_files tr1 = saved_files tr @ [path_join (project_dir self) filename]"
    using post_true_saved [of self post i env "tr @ [iteration_line]" tr1] psp
    by (simp add: iteration_line_def)
  show "successful_posts (counters_of ctl) \<le> successful_posts c + 1"
    using assms psp
    by (auto simp: loop_body_eq loop_handler_eq Let_def counters_of_def
        split: sum.splits outcome.splits if_splits)
  show "successful_posts c \<le> successful_posts (counters_of ctl)"
    using assms psp
    by (auto simp: loop_body_eq loop_handler_eq Let_def counters_of_def
        split: sum.splits outcome.splits if_splits)
  show "\<exists>filename. post_filename post i = Inr filename
        \<and> saved_files tr' = saved_files tr @ [path_join (project_dir self) filename]"
    if "successful_posts (counters_of ctl) = successful_posts c + 1"
    using assms psp that saved
    by (auto simp: loop_body_eq loop_handler_eq Let_def counters_of_def saved_files_snd_create
        split: sum.splits outcome.splits if_splits)
qed

lemma process_posts_saved:
  assumes "process_posts self posts i c env tr = (Inr c', tr')"
  shows "successful_posts c' \<le> successful_posts c + length posts
    \<and> (successful_posts c' = successful_posts c + length posts \<longrightarrow>
        (\<exists>names. length names = length posts
           \<and> (\<forall>k<length posts. post_filename (posts ! k) (i + k) = Inr (names ! k))
           \<and> saved_files tr' = saved_files tr @ map (path_join (project_dir self)) names))"
  using assms
proof (induction posts arbitrary: i c tr)
  case Nil
  then show ?case by (simp add: io_return_def)
next
  case (Cons post rest)
  obtain ctl tr1 where body: "loop_body self post i c env tr = (Inr ctl, tr1)"
    using loop_body_returns by blast
  note b = loop_body_successful [OF body]
  show ?case
  proof (cases ctl)
    case (Break c1)
    with body Cons.prems have fin: "c' = c1" "tr' = tr1"
      by (simp_all add: io_bind_def io_return_def)
    have c1: "counters_of ctl = c1" using Break by (simp add: counters_of_def)
    show ?thesis
    proof (intro conjI impI)
      show "successful_posts c' \<le> successful_posts c + length (post # rest)"
        using b(1) c1 fin by simp
    next
      assume all: "successful_posts c' = successful_posts c + length (post # rest)"
      with b(1) c1 fin have "rest = []" and one: "successful_posts (counters_of ctl) = successful_posts c + 1"
        by auto
      from b(3) [OF one] obtain filename where f: "post_filename post i = Inr filename"
        "saved_files tr1 = saved_files tr @ [path_join (project_dir self) filename]"
        by blast
      show "\<exists>names. length names = length (post # rest)
           \<and> (\<forall>k<length (post # rest). post_filename ((post # rest) ! k) (i + k) = Inr (names ! k))
           \<and> saved_files tr' = saved_files tr @ map (path_join (project_dir self)) names"
        using f fin \<open>rest = []\<close> by (intro exI [of _ "[filename]"]) simp
    qed
  next
    case (Continue c1)
    with body Cons.prems have rest: "process_posts self rest (i + 1) c1 env tr1 = (Inr c', tr')"
      by (simp add: io_bind_def)
    have c1: "counters_of ctl = c1" using Continue by (simp add: counters_of_def)
    note ih = Cons.IH [OF rest]
    show ?thesis
    proof (intro conjI impI)
      show "successful_posts c' \<le> successful_posts c + length (post # rest)"
        using ih b(1) c1 by simp
    next
      assume all: "successful_posts c' = successful_posts c + length (post # rest)"
      with ih b(1) c1 have one: "successful_posts (counters_of ctl) = successful_posts c + 1"
        and more: "successful_posts c' = successful_posts c1 + length rest"
        by auto
      from b(3) [OF one] obtain filename where f: "post_filename post i = Inr filename"
        "saved_files tr1 = saved_files tr @ [path_join (project_dir self) filename]"
        by blast
      from ih more obtain names where n: "length names = length rest"
        "\<forall>k<length rest. post_filename (rest ! k) (i + 1 + k) = Inr (names ! k)"
        "saved_files tr' = saved_files tr1 @ map (path_join (project_dir self)) names"
        by blast
      have "\<forall>k<length (post # rest).
          post_filename ((post # rest) ! k) (i + k) = Inr ((filename # names) ! k)"
      proof (intro allI impI)
        fix k assume "k < length (post # rest)"
        then show "post_filename ((post # rest) ! k) (i + k) = Inr ((filename # names) ! k)"
          using f(1) n(2) by (cases k) simp_all
      qed
      then show "\<exists>names. length names = length (post # rest)
           \<and> (\<forall>k<length (post # rest). post_filename ((post # rest) ! k) (i + k) = Inr (names ! k))
           \<and> saved_files tr' = saved_files tr @ map (path_join (project_dir self)) names"
        using f(2) n(1) n(3) by (intro exI [of _ "filename # names"]) simp
    qed
  qed
qed

lemma saved_files_outside:
  assumes "emits (step_event A) m" and "\<And>p. PathExists p \<notin> A"
  shows "saved_files (snd (m env tr)) = saved_files tr"
  using saved_files_unchanged [OF assms] by (metis prod.collapse)

lemma run_saved_files:
  assumes run: "automation_steps self env tr = (Inr c, tr')"
  obtains v posts t1 t2 t3 t4 where
    "fetch_posts_data self env t1 = (Inr v, t2)"
    "py_iter v = Inr posts"
    "process_posts self posts 1 \<lparr>successful_posts = 0, failed_posts = 0\<rparr> env t3 = (Inr c, t4)"
    "saved_files t3 = saved_files tr" "saved_files tr' = saved_files t4"
    "iterations t3 = iterations tr" "iterations tr' = iterations t4"
proof -
  from automation_steps_returns [OF run] obtain t1 v t2 t3 posts t4 t5 where
    a: "announce env tr = (Inr (), t1)"
    and f: "fetch_posts_data self env t1 = (Inr v, t2)"
    and l: "launch_notepad env t2 = (Inr True, t3)"
    and it: "py_iter v = Inr posts"
    and p: "process_posts self posts 1 \<lparr>successful_posts = 0, failed_posts = 0\<rparr> env
       (t3 @ [Log Info '' Processing {} posts...'']) = (Inr c, t4)"
    and cl: "close_notepad env t4 = (Inr (), t5)"
    and fr: "final_report self env t5 = (Inr (), tr')"
    by blast
  have s1: "saved_files t1 = saved_files tr"
    by (rule saved_files_unchanged [OF emits_announce _ a]) simp
  have s2: "saved_files t2 = saved_files t1"
    by (rule saved_files_unchanged [OF emits_fetch _ f]) simp
  have s3: "saved_files t3 = saved_files t2"
    by (rule saved_files_unchanged [OF emits_launch _ l]) simp
  have s5: "saved_files t5 = saved_files t4"
    by (rule saved_files_unchanged [OF emits_close_notepad _ cl]) simp
  have s6: "saved_files tr' = saved_files t5"
    by (rule saved_files_unchanged [OF emits_final_report _ fr]) auto
  have i1: "iterations t1 = iterations tr"
    by (rule iterations_unchanged [OF emits_announce a])
  have i2: "iterations t2 = iterations t1"
    by (rule iterations_unchanged [OF emits_fetch f])
  have i3: "iterations t3 = iterations t2"
    by (rule iterations_unchanged [OF emits_launch l])
  have i5: "iterations t5 = iterations t4"
    by (rule iterations_unchanged [OF emits_close_notepad cl])
  have i6: "iterations tr' = iterations t5"
    by (rule iterations_unchanged [OF emits_final_report fr])
  have not_line: "Log Info '' Processing {} posts...'' \<noteq> iteration_line"
    by (simp add: iteration_line_def nl_def)
  show thesis
  proof (rule that [OF f it p])
    show "saved_files (t3 @ [Log Info '' Processing {} posts...'']) = saved_files tr"
      using s1 s2 s3 by simp
    show "saved_files tr' = saved_files t4" using s5 s6 by simp
    show "iterations (t3 @ [Log Info '' Processing {} posts...'']) = iterations tr"
      using i1 i2 i3 not_line by simp
    show "iterations tr' = iterations t4" using i5 i6 by simp
  qed
qed

lemma fetched_posts:
  assumes api: "\<forall>t. env t ResponseJson = Ret (PList xs)"
    and f: "fetch_posts_data self env t = (Inr v, t')"
  shows "v = PList (take 10 xs)"
proof -
  from fetch_value_env [OF f] obtain t0 posts where
    "env t0 ResponseJson = Ret posts" "py_slice 10 posts = Inr v" by blast
  with api show ?thesis by (auto simp: py_slice_def)
qed

lemma id_filename:
  assumes "map_of kvs ''id'' = Some (PInt (int n))"
  shows "post_filename (PDict kvs) i = Inr (''post '' @ show_nat n @ ''.txt'')"
  using assms by (simp add: post_filename_def py_get_def py_str_def show_int_def)

subsection \<open>Evaluating concrete runs\<close>

lemmas example_defs = example_bot_def env_fine_def env_no_file_def env_no_dialog_def
  env_confirm_fails_def env_offline_def env_two_posts_def post_a_def post_b_def
  env_post_42_def env_twelve_posts_def numbered_post_def env_interrupted_once_def
  env_bad_json_def env_interrupted_typing_def env_offline_interrupted_def

lemmas run_unfold = automation_steps_def announce_def fetch_posts_data_def launch_notepad_def
  launch_notepad_botcity_def launch_notepad_pyautogui_def process_single_post_def
  type_text_hybrid_def type_text_botcity_def type_text_pyautogui_def save_document_def
  create_new_document_def close_notepad_def final_report_def loop_body_def loop_handler_def
  io_defs Let_def is_Exception_def is_RequestException_def
  py_len_def py_iter_def py_slice_def py_truth_def py_get_def post_filename_def
  format_blog_post_def py_title_def

lemma rule_text_differs:
  "replicate 70 CHR ''='' \<noteq> ''--- Processing {}/10 ---''"
  "replicate 70 CHR ''='' \<noteq> nl # ''--- Processing {}/10 ---''"
proof -
  have "length (replicate 70 CHR ''='') \<noteq> length ''--- Processing {}/10 ---''"
    and "length (replicate 70 CHR ''='') \<noteq> length (nl # ''--- Processing {}/10 ---'')"
    by simp_all
  then show "replicate 70 CHR ''='' \<noteq> ''--- Processing {}/10 ---''"
    and "replicate 70 CHR ''='' \<noteq> nl # ''--- Processing {}/10 ---''"
    by fastforce+
qed


subsection \<open>The paths entered in the Save dialog\<close>

lemma dialog_paths_append [simp]: "dialog_paths (a @ b) = dialog_paths a @ dialog_paths b"
  by (simp add: dialog_paths_def map_filter_def)

lemma dialog_paths_Nil [simp]: "dialog_paths [] = []"
  by (simp add: dialog_paths_def map_filter_def)

lemma dialog_paths_Log [simp]: "dialog_paths (Log l msg # tr) = dialog_paths tr"
  by (simp add: dialog_paths_def map_filter_def)

lemma dialog_paths_Ext [simp]:
  "dialog_paths (Ext a out # tr) =
     (case dialog_path (Ext a out) of Some p \<Rightarrow> p # dialog_paths tr | None \<Rightarrow> dialog_paths tr)"
  by (simp add: dialog_paths_def map_filter_def split: option.splits)

lemma dialog_path_other: "(\<And>p. a \<noteq> Typewrite p 20) \<Longrightarrow> dialog_path (Ext a out) = None"
  by (cases a; cases out) auto

lemma dialog_paths_none:
  assumes "list_all (step_event A) seg" and "\<And>p. Typewrite p 20 \<notin> A"
  shows "dialog_paths seg = []"
  using assms(1)
proof (induction seg)
  case Nil
  then show ?case by simp
next
  case (Cons ev seg)
  show ?case
  proof (cases ev)
    case (Ext a out)
    with Cons.prems have "a \<in> A" by (simp add: step_event_def)
    with assms(2) have "\<And>p. a \<noteq> Typewrite p 20" by blast
    then have "dialog_path (Ext a out) = None" by (rule dialog_path_other)
    with Ext Cons show ?thesis by simp
  next
    case (Log l msg)
    with Cons show ?thesis by simp
  qed
qed

lemma dialog_paths_unchanged:
  assumes "emits (step_event A) m" and "\<And>p. Typewrite p 20 \<notin> A" and "m env tr = (r, tr')"
  shows "dialog_paths tr' = dialog_paths tr"
proof -
  obtain seg where "tr' = tr @ seg" "list_all (step_event A) seg"
    using emits_seg [OF assms(1) assms(3)] by blast
  then show ?thesis using dialog_paths_none [OF _ assms(2)] by simp
qed

lemma dialog_paths_typing:
  "type_text_hybrid text env tr = (r, tr') \<Longrightarrow> dialog_paths tr' = dialog_paths tr"
  by (rule dialog_paths_unchanged [OF emits_type_text_hybrid]) (simp_all add: typing_actions_def)

lemma dialog_paths_create:
  "create_new_document env tr = (r, tr') \<Longrightarrow> dialog_paths tr' = dialog_paths tr"
  by (rule dialog_paths_unchanged [OF emits_create_new_document])
    (simp_all add: new_document_actions_def)

lemma dialog_paths_snd_create:
  "dialog_paths (snd (create_new_document env t)) = dialog_paths t"
  using dialog_paths_create by (metis prod.collapse)

lemma dialog_paths_save:
  assumes "save_document self filename env tr = (Inr True, tr')"
  shows "dialog_paths tr' = dialog_paths tr @ [path_join (project_dir self) filename]"
  using assms
  by (auto simp: save_unfold split: outcome.splits if_splits)

lemma post_true_entered:
  assumes "process_single_post self post i env tr = (Inr True, tr')"
  shows "\<exists>filename. post_filename post i = Inr filename
      \<and> dialog_paths tr' = dialog_paths tr @ [path_join (project_dir self) filename]"
  using assms
  by (auto simp: post_unfold split: sum.splits prod.splits if_splits
      dest!: dialog_paths_typing dialog_paths_create dialog_paths_save)

lemma loop_body_entered:
  assumes "loop_body self post i c env tr = (Inr ctl, tr')"
    and "successful_posts (counters_of ctl) = successful_posts c + 1"
  shows "\<exists>filename. post_filename post i = Inr filename
        \<and> dialog_paths tr' = dialog_paths tr @ [path_join (project_dir self) filename]"
proof -
  obtain r1 tr1 where psp: "process_single_post self post i env (tr @ [iteration_line]) = (r1, tr1)"
    by (cases "process_single_post self post i env (tr @ [iteration_line])")
  have entered: "r1 = Inr True \<Longrightarrow>
      \<exists>filename. post_filename post i = Inr filename
        \<and> dialog_paths tr1 = dialog_paths tr @ [path_join (project_dir self) filename]"
    using post_true_entered [of self post i env "tr @ [iteration_line]" tr1] psp
    by (simp add: iteration_line_def)
  show ?thesis
    using assms psp entered
    by (auto simp: loop_body_eq loop_handler_eq Let_def counters_of_def dialog_paths_snd_create
        split: sum.splits outcome.splits if_splits)
qed

lemma process_posts_entered:
  assumes "process_posts self posts i c env tr = (Inr c', tr')"
    and "successful_posts c' = successful_posts c + length posts"
  shows "\<exists>names. length names = length posts
           \<and> (\<forall>k<length posts. post_filename (posts ! k) (i + k) = Inr (names ! k))
           \<and> dialog_paths tr' = dialog_paths tr @ map (path_join (project_dir self)) names"
  using assms
proof (induction posts arbitrary: i c tr)
  case Nil
  then show ?case by (simp add: io_return_def)
next
  case (Cons post rest)
  obtain ctl tr1 where body: "loop_body self post i c env tr = (Inr ctl, tr1)"
    using loop_body_returns by blast
  note b = loop_body_successful [OF body]
  show ?case
  proof (cases ctl)
    case (Break c1)
    with body Cons.prems(1) have fin: "c' = c1" "tr' = tr1"
      by (simp_all add: io_bind_def io_return_def)
    have c1: "counters_of ctl = c1" using Break by (simp add: counters_of_def)
    from Cons.prems(2) b(1) c1 fin have "rest = []"
      and one: "successful_posts (counters_of ctl) = successful_posts c + 1"
      by auto
    from loop_body_entered [OF body one] obtain filename where
      f: "post_filename post i = Inr filename"
      "dialog_paths tr1 = dialog_paths tr @ [path_join (project_dir self) filename]"
      by blast
    show ?thesis
      using f fin \<open>rest = []\<close> by (intro exI [of _ "[filename]"]) simp
  next
    case (Continue c1)
    with body Cons.prems(1) have rest: "process_posts self rest (i + 1) c1 env tr1 = (Inr c', tr')"
      by (simp add: io_bind_def)
    have c1: "counters_of ctl = c1" using Continue by (simp add: counters_of_def)
    have le: "successful_posts c' \<le> successful_posts c1 + length rest"
      using process_posts_saved [OF rest] by blast
    from Cons.prems(2) le b(1) c1
    have one: "successful_posts (counters_of ctl) = successful_posts c + 1"
      and more: "successful_posts c' = successful_posts c1 + length rest"
      by auto
    from loop_body_entered [OF body one] obtain filename where
      f: "post_filename post i = Inr filename"
      "dialog_paths tr1 = dialog_paths tr @ [path_join (project_dir self) filename]"
      by blast
    from Cons.IH [OF rest more] obtain names where n: "length names = length rest"
      "\<forall>k<length rest. post_filename (rest ! k) (i + 1 + k) = Inr (names ! k)"
      "dialog_paths tr' = dialog_paths tr1 @ map (path_join (project_dir self)) names"
      by blast
    have "\<forall>k<length (post # rest).
        post_filename ((post # rest) ! k) (i + k) = Inr ((filename # names) ! k)"
    proof (intro allI impI)
      fix k assume "k < length (post # rest)"
      then show "post_filename ((post # rest) ! k) (i + k) = Inr ((filename # names) ! k)"
        using f(1) n(2) by (cases k) simp_all
    qed
    then show ?thesis
      using f(2) n(1) n(3) by (intro exI [of _ "filename # names"]) simp
  qed
qed

lemma run_entered:
  assumes run: "automation_steps self env tr = (Inr c, tr')"
  obtains v posts t1 t2 t3 t4 where
    "fetch_posts_data self env t1 = (Inr v, t2)"
    "py_iter v = Inr posts"
    "process_posts self posts 1 \<lparr>successful_posts = 0, failed_posts = 0\<rparr> env t3 = (Inr c, t4)"
    "dialog_paths t3 = dialog_paths tr" "dialog_paths tr' = dialog_paths t4"
    "saved_files t3 = saved_files tr" "saved_files tr' = saved_files t4"
proof -
  from automation_steps_returns [OF run] obtain t1 v t2 t3 posts t4 t5 where
    a: "announce env tr = (Inr (), t1)"
    and f: "fetch_posts_data self env t1 = (Inr v, t2)"
    and l: "launch_notepad env t2 = (Inr True, t3)"
    and it: "py_iter v = Inr posts"
    and p: "process_posts self posts 1 \<lparr>successful_posts = 0, failed_posts = 0\<rparr> env
       (t3 @ [Log Info '' Processing {} posts...'']) = (Inr c, t4)"
    and cl: "close_notepad env t4 = (Inr (), t5)"
    and fr: "final_report self env t5 = (Inr (), tr')"
    by blast
  have d1: "dialog_paths t1 = dialog_paths tr"
    by (rule dialog_paths_unchanged [OF emits_announce _ a]) simp
  have d2: "dialog_paths t2 = dialog_paths t1"
    by (rule dialog_paths_unchanged [OF emits_fetch _ f]) simp
  have d3: "dialog_paths t3 = dialog_paths t2"
    by (rule dialog_paths_unchanged [OF emits_launch _ l]) simp
  have d5: "dialog_paths t5 = dialog_paths t4"
    by (rule dialog_paths_unchanged [OF emits_close_notepad _ cl]) simp
  have d6: "dialog_paths tr' = dialog_paths t5"
    by (rule dialog_paths_unchanged [OF emits_final_report _ fr]) auto
  have s1: "saved_files t1 = saved_files tr"
    by (rule saved_files_unchanged [OF emits_announce _ a]) simp
  have s2: "saved_files t2 = saved_files t1"
    by (rule saved_files_unchanged [OF emits_fetch _ f]) simp
  have s3: "saved_files t3 = saved_files t2"
    by (rule saved_files_unchanged [OF emits_launch _ l]) simp
  have s5: "saved_files t5 = saved_files t4"
    by (rule saved_files_unchanged [OF emits_close_notepad _ cl]) simp
  have s6: "saved_files tr' = saved_files t5"
    by (rule saved_files_unchanged [OF emits_final_report _ fr]) auto
  show thesis
  proof (rule that [OF f it p])
    show "dialog_paths (t3 @ [Log Info '' Processing {} posts...'']) = dialog_paths tr"
      using d1 d2 d3 by simp
    show "dialog_paths tr' = dialog_paths t4" using d5 d6 by simp
    show "saved_files (t3 @ [Log Info '' Processing {} posts...'']) = saved_files tr"
      using s1 s2 s3 by simp
    show "saved_files tr' = saved_files t4" using s5 s6 by simp
  qed
qed
section \<open>Properties of the text of a post\<close>


lemma str_title_Untitled: "str_title ''Untitled'' = ''Untitled''"
  by (simp add: str_title_def to_upper_def to_lower_def is_cased_def lower_letters_def upper_letters_def)

lemma typed_texts_append [simp]: "typed_texts (a @ b) = typed_texts a @ typed_texts b"
  by (simp add: typed_texts_def map_filter_def)

lemma typed_texts_Nil [simp]: "typed_texts [] = []"
  by (simp add: typed_texts_def map_filter_def)

lemma typed_texts_Log [simp]: "typed_texts (Log l msg # tr) = typed_texts tr"
  by (simp add: typed_texts_def map_filter_def)

lemma typed_texts_Ext [simp]:
  "typed_texts (Ext a out # tr) =
     (case typed_by (Ext a out) of Some t \<Rightarrow> t # typed_texts tr | None \<Rightarrow> typed_texts tr)"
  by (simp add: typed_texts_def map_filter_def split: option.splits)









text \<open>
  Claim C9, as amended. Over any post dictionary whose title, when present, is a string,
  \<^verbatim>\<open>format_blog_post\<close> returns: a missing id, title, body or author id is replaced by
  its default. The filename construction returns over any post dictionary, and a post
  with no id gets the filename of its loop position.
\<close>

theorem format_blog_post_total:
  "((\<forall>t. map_of kvs ''title'' = Some t \<longrightarrow> (\<exists>s. t = PStr s)) \<longrightarrow>
      format_blog_post (PDict kvs) =
        Inr (blog_template
          (case map_of kvs ''id'' of None \<Rightarrow> ''Unknown'' | Some v \<Rightarrow> py_str v)
          (case map_of kvs ''title'' of None \<Rightarrow> ''Untitled'' | Some v \<Rightarrow> str_title (py_str v))
          (case map_of kvs ''userId'' of None \<Rightarrow> ''Unknown'' | Some v \<Rightarrow> py_str v)
          (case map_of kvs ''body'' of None \<Rightarrow> ''No content available'' | Some v \<Rightarrow> py_str v)))
   \<and> post_filename (PDict kvs) n =
      Inr (''post '' @ (case map_of kvs ''id'' of None \<Rightarrow> show_nat n | Some v \<Rightarrow> py_str v)
           @ ''.txt'')"
  by (auto simp: format_blog_post_def post_filename_def py_get_def py_title_def py_str_def
      show_int_def str_title_Untitled split: option.splits)

theorem format_blog_post_total_witness:
  "format_blog_post (PDict [(''body'', PStr ''quia et'')]) =
      Inr (blog_template ''Unknown'' ''Untitled'' ''Unknown'' ''quia et'')
   \<and> post_filename (PDict [(''body'', PStr ''quia et'')]) 3 = Inr ''post 3.txt''"
proof -
  note inst = format_blog_post_total [of "[(''body'', PStr ''quia et'')]" 3]
  have h: "\<forall>t. map_of [(''body'', PStr ''quia et'')] ''title'' = Some t \<longrightarrow> (\<exists>s. t = PStr s)"
    by simp
  have 1: "format_blog_post (PDict [(''body'', PStr ''quia et'')]) =
      Inr (blog_template ''Unknown'' ''Untitled'' ''Unknown'' ''quia et'')"
    using inst [THEN conjunct1, THEN mp, OF h] by (simp add: py_str_def)
  have 2: "post_filename (PDict [(''body'', PStr ''quia et'')]) 3 = Inr ''post 3.txt''"
    using inst [THEN conjunct2] by (simp add: show_nat.simps digit_char_def)
  from 1 2 show ?thesis by (intro conjI)
qed

text \<open>
  Claim C9 as stated fails: a dictionary whose title is present and not a string (here
  JSON \<^verbatim>\<open>null\<close>) makes \<^verbatim>\<open>format_blog_post\<close> raise.
\<close>

theorem format_blog_post_raises_counterexample:
  "format_blog_post (PDict [(''id'', PInt 1), (''title'', PNone), (''body'', PStr ''quia et'')]) =
     Inl AttributeError"
  by (simp add: format_blog_post_def py_get_def py_title_def)
section \<open>Primary method and fallback\<close>

lemma fallback_eq:
  assumes p: "raises_only {KeyboardInterrupt} primary"
    and f: "raises_only {KeyboardInterrupt} fallback"
  shows "try_except
           (io_bind primary (\<lambda>ok. if ok then io_return True else thn (log_line l msg) fallback))
           (\<lambda>e. thn (log_line l' msg') (io_return False)) env tr =
         (if fst (primary env tr) = Inr False
          then fallback env (snd (primary env tr) @ [Log l msg])
          else primary env tr)"
proof (cases "primary env tr")
  case (Pair r tr1)
  show ?thesis
  proof (cases r)
    case (Inl e)
    with Pair p have "e = KeyboardInterrupt"
      by (metis fst_conv raises_onlyD singletonD)
    with Pair Inl show ?thesis
      by (simp add: try_except_def try_catch_def io_bind_def io_raise_def is_Exception_def)
  next
    case (Inr ok)
    show ?thesis
    proof (cases ok)
      case True
      with Pair Inr show ?thesis
        by (simp add: try_except_def try_catch_def io_bind_def io_return_def)
    next
      case False
      obtain r2 tr2 where r2: "fallback env (tr1 @ [Log l msg]) = (r2, tr2)"
        by (cases "fallback env (tr1 @ [Log l msg])")
      have "\<And>e. r2 = Inl e \<Longrightarrow> e = KeyboardInterrupt"
        using f r2 by (metis fst_conv raises_onlyD singletonD)
      with Pair Inr False r2 show ?thesis
        by (auto simp: try_except_def try_catch_def io_bind_def thn_def log_line_def
            io_raise_def is_Exception_def split: sum.splits)
    qed
  qed
qed

lemma launch_notepad_eq:
  "launch_notepad env tr =
     (if fst (launch_notepad_botcity env tr) = Inr False then launch_fallback_run env tr
      else launch_notepad_botcity env tr)"
  unfolding launch_notepad_def launch_fallback_run_def
  by (rule fallback_eq [OF interrupt_only_launch_botcity interrupt_only_launch_pyautogui])

lemma type_text_hybrid_eq:
  "type_text_hybrid text env tr =
     (if fst (type_text_botcity text env tr) = Inr False then typing_fallback_run text env tr
      else type_text_botcity text env tr)"
  unfolding type_text_hybrid_def typing_fallback_run_def
  by (rule fallback_eq [OF interrupt_only_type_botcity interrupt_only_type_pyautogui])

text \<open>
  Claim C6. For the launch and for the text entry alike, the combined method runs the
  primary method first; it runs the fallback exactly when the primary method has returned
  \<open>False\<close>, and then it is the fallback's run that decides; otherwise it ends as the
  primary method ended. So the combined method returns \<open>True\<close> exactly when the
  primary method or the fallback it ran returns \<open>True\<close>.
\<close>

theorem fallback_iff_primary_fails:
  "launch_notepad env tr =
     (if fst (launch_notepad_botcity env tr) = Inr False then launch_fallback_run env tr
      else launch_notepad_botcity env tr)
   \<and> prefix (snd (launch_notepad_botcity env tr)) (snd (launch_notepad env tr))
   \<and> (fst (launch_notepad env tr) = Inr True) =
       (fst (launch_notepad_botcity env tr) = Inr True
        \<or> fst (launch_notepad_botcity env tr) = Inr False
          \<and> fst (launch_fallback_run env tr) = Inr True)
   \<and> type_text_hybrid text env tr =
     (if fst (type_text_botcity text env tr) = Inr False then typing_fallback_run text env tr
      else type_text_botcity text env tr)
   \<and> prefix (snd (type_text_botcity text env tr)) (snd (type_text_hybrid text env tr))
   \<and> (fst (type_text_hybrid text env tr) = Inr True) =
       (fst (type_text_botcity text env tr) = Inr True
        \<or> fst (type_text_botcity text env tr) = Inr False
          \<and> fst (typing_fallback_run text env tr) = Inr True)"
proof -
  have p1: "prefix (snd (launch_notepad_botcity env tr)) (snd (launch_fallback_run env tr))"
    unfolding launch_fallback_run_def
    by (rule prefix_order.trans [OF _ grows_launch_pyautogui]) simp
  have p2: "prefix (snd (type_text_botcity text env tr)) (snd (typing_fallback_run text env tr))"
    unfolding typing_fallback_run_def
    by (rule prefix_order.trans [OF _ grows_type_pyautogui]) simp
  show ?thesis
    using p1 p2 by (auto simp: launch_notepad_eq type_text_hybrid_eq)
qed

section \<open>A failing fetch\<close>






section \<open>Saving a document\<close>















section \<open>The files of a run\<close>

lemma split_path_plain: "\<not> list_ex is_separator f \<Longrightarrow> split_path f = [f]"
  by (induction f) auto

lemma path_join_plain:
  "\<not> list_ex is_separator f \<Longrightarrow> f \<noteq> [] \<Longrightarrow> f \<noteq> ''.'' \<Longrightarrow> path_join d f = d @ backslash # f"
  by (simp add: path_join_def path_parts_def split_path_plain)

text \<open>
  Claim C1, as amended. The file of a post is written by the editor; the program enters
  its path in the Save dialog and learns of the file by the check that follows the save.
  Take a run that completes, on an API response that is the array \<open>xs\<close>, in which every
  fetched post is counted as successful. Then the paths entered in the Save dialog during
  the run, and the paths at which a check of the run found a file, are the same: one per
  fetched post, in the order of the posts, the path of the project directory and the
  filename \<^verbatim>\<open>post {id}.txt\<close> of the post's id (of its position in the loop when it has
  none). When the response has at least ten posts and the first ten have the ids 1 to
  10, these are the ten paths of \<^verbatim>\<open>post 1.txt\<close> to \<^verbatim>\<open>post 10.txt\<close> in the project
  directory, all different.
\<close>

theorem one_path_per_fetched_post:
  assumes api: "\<forall>t. env t ResponseJson = Ret (PList xs)"
    and run: "automation_steps self env tr = (Inr c, tr')"
    and all: "successful_posts c = length (take 10 xs)"
  shows "(\<exists>names. length names = length (take 10 xs)
            \<and> (\<forall>k<length (take 10 xs). post_filename (xs ! k) (k + 1) = Inr (names ! k))
            \<and> dialog_paths tr' = dialog_paths tr @ map (path_join (project_dir self)) names
            \<and> saved_files tr' = saved_files tr @ map (path_join (project_dir self)) names)
    \<and> (10 \<le> length xs
          \<and> (\<forall>k<10. \<exists>kvs. xs ! k = PDict kvs \<and> map_of kvs ''id'' = Some (PInt (int (k + 1))))
        \<longrightarrow> dialog_paths tr' = dialog_paths tr @
              map (\<lambda>name. project_dir self @ backslash # name)
                [''post 1.txt'', ''post 2.txt'', ''post 3.txt'', ''post 4.txt'', ''post 5.txt'',
               ''post 6.txt'', ''post 7.txt'', ''post 8.txt'', ''post 9.txt'', ''post 10.txt'']
          \<and> saved_files tr' = saved_files tr @
              map (\<lambda>name. project_dir self @ backslash # name)
                [''post 1.txt'', ''post 2.txt'', ''post 3.txt'', ''post 4.txt'', ''post 5.txt'',
               ''post 6.txt'', ''post 7.txt'', ''post 8.txt'', ''post 9.txt'', ''post 10.txt'']
          \<and> distinct (map (\<lambda>name. project_dir self @ backslash # name)
                [''post 1.txt'', ''post 2.txt'', ''post 3.txt'', ''post 4.txt'', ''post 5.txt'',
               ''post 6.txt'', ''post 7.txt'', ''post 8.txt'', ''post 9.txt'', ''post 10.txt'']))"
proof -
  from run_entered [OF run] obtain v posts t1 t2 t3 t4 where
    f: "fetch_posts_data self env t1 = (Inr v, t2)"
    and it: "py_iter v = Inr posts"
    and p: "process_posts self posts 1 \<lparr>successful_posts = 0, failed_posts = 0\<rparr> env t3 = (Inr c, t4)"
    and d3: "dialog_paths t3 = dialog_paths tr" and d4: "dialog_paths tr' = dialog_paths t4"
    and s3: "saved_files t3 = saved_files tr" and s4: "saved_files tr' = saved_files t4"
    .
  have v: "v = PList (take 10 xs)"
    by (rule fetched_posts [where env = env, OF api f])
  with it have posts: "posts = take 10 xs" by (simp add: py_iter_def)
  have every: "successful_posts c =
      successful_posts \<lparr>successful_posts = 0, failed_posts = 0\<rparr> + length posts"
    using all posts by simp
  from process_posts_saved [OF p, THEN conjunct2, rule_format, OF every]
  obtain names where n0: "length names = length posts"
    "\<forall>k<length posts. post_filename (posts ! k) (1 + k) = Inr (names ! k)"
    "saved_files t4 = saved_files t3 @ map (path_join (project_dir self)) names"
    by blast
  from process_posts_entered [OF p every]
  obtain entered where e0: "length entered = length posts"
    "\<forall>k<length posts. post_filename (posts ! k) (1 + k) = Inr (entered ! k)"
    "dialog_paths t4 = dialog_paths t3 @ map (path_join (project_dir self)) entered"
    by blast
  have same: "entered = names"
  proof (rule nth_equalityI)
    show "length entered = length names" using n0(1) e0(1) by simp
  next
    fix k assume "k < length entered"
    with e0(1) have "k < length posts" by simp
    with n0(2) e0(2) have "Inr (entered ! k) = (Inr (names ! k) :: exc + string)" by metis
    then show "entered ! k = names ! k" by simp
  qed
  note n = n0 [unfolded posts]
  have names: "\<forall>k<length (take 10 xs). post_filename (xs ! k) (k + 1) = Inr (names ! k)"
    using n(2) by simp
  have saved: "saved_files tr' = saved_files tr @ map (path_join (project_dir self)) names"
    using n(3) s3 s4 by simp
  have dialog: "dialog_paths tr' = dialog_paths tr @ map (path_join (project_dir self)) names"
    using e0(3) same d3 d4 by simp
  let ?ten = "[''post 1.txt'', ''post 2.txt'', ''post 3.txt'', ''post 4.txt'', ''post 5.txt'',
               ''post 6.txt'', ''post 7.txt'', ''post 8.txt'', ''post 9.txt'', ''post 10.txt'']"
  have different: "distinct (map (\<lambda>name. project_dir self @ backslash # name) ?ten)"
    by simp
  have special: "dialog_paths tr' = dialog_paths tr @
        map (\<lambda>name. project_dir self @ backslash # name) ?ten
      \<and> saved_files tr' = saved_files tr @
        map (\<lambda>name. project_dir self @ backslash # name) ?ten"
    if len: "10 \<le> length xs"
      and ids: "\<forall>k<10. \<exists>kvs. xs ! k = PDict kvs \<and> map_of kvs ''id'' = Some (PInt (int (k + 1)))"
  proof -
    have l10: "length names = 10" using n(1) len by simp
    have "names = ?ten"
    proof (rule nth_equalityI)
      show "length names = length ?ten"
        using l10 by simp
    next
      fix k assume "k < length names"
      with l10 have k: "k < 10" by simp
      from ids k obtain kvs where kv: "xs ! k = PDict kvs"
        "map_of kvs ''id'' = Some (PInt (int (k + 1)))" by blast
      have "post_filename (xs ! k) (k + 1) = Inr (''post '' @ show_nat (k + 1) @ ''.txt'')"
        using id_filename [OF kv(2)] kv(1) by simp
      moreover have "post_filename (xs ! k) (k + 1) = Inr (names ! k)"
        using names k len by simp
      ultimately have nk: "names ! k = ''post '' @ show_nat (k + 1) @ ''.txt''" by simp
      from k consider "k = 0" | "k = 1" | "k = 2" | "k = 3" | "k = 4" | "k = 5" | "k = 6"
        | "k = 7" | "k = 8" | "k = 9"
        by atomize_elim arith
      then show "names ! k = ?ten ! k"
        using nk by cases (simp_all add: show_nat.simps digit_char_def)
    qed
    moreover have "map (path_join (project_dir self)) ?ten =
        map (\<lambda>name. project_dir self @ backslash # name) ?ten"
      by (simp add: path_join_plain is_separator_def backslash_def)
    ultimately show ?thesis using saved dialog by simp
  qed
  from n(1) names saved dialog special different show ?thesis by blast
qed

theorem one_path_per_fetched_post_witness:
  "dialog_paths (snd (automation_steps example_bot env_twelve_posts [])) =
     map (\<lambda>name. ''tjm-project'' @ backslash # name)
       [''post 1.txt'', ''post 2.txt'', ''post 3.txt'', ''post 4.txt'', ''post 5.txt'',
               ''post 6.txt'', ''post 7.txt'', ''post 8.txt'', ''post 9.txt'', ''post 10.txt'']
   \<and> saved_files (snd (automation_steps example_bot env_twelve_posts [])) =
     map (\<lambda>name. ''tjm-project'' @ backslash # name)
       [''post 1.txt'', ''post 2.txt'', ''post 3.txt'', ''post 4.txt'', ''post 5.txt'',
               ''post 6.txt'', ''post 7.txt'', ''post 8.txt'', ''post 9.txt'', ''post 10.txt'']"
proof -
  let ?xs = "map numbered_post [1, 2, 3, 4, 5, 6, 7, 8, 9, 10, 11, 12]"
  have api: "\<forall>t. env_twelve_posts t ResponseJson = Ret (PList ?xs)"
    by (simp add: env_twelve_posts_def)
  have "fst (automation_steps example_bot env_twelve_posts []) =
      Inr \<lparr>successful_posts = 10, failed_posts = 0\<rparr>"
    by (simp add: run_unfold example_defs)
  then have run: "automation_steps example_bot env_twelve_posts [] =
      (Inr \<lparr>successful_posts = 10, failed_posts = 0\<rparr>,
       snd (automation_steps example_bot env_twelve_posts []))"
    by (metis prod.collapse)
  have all: "successful_posts \<lparr>successful_posts = 10, failed_posts = 0\<rparr> = length (take 10 ?xs)"
    by simp
  have ten: "10 \<le> length ?xs"
    by simp
  have ids: "\<forall>k<10. \<exists>kvs. ?xs ! k = PDict kvs \<and> map_of kvs ''id'' = Some (PInt (int (k + 1)))"
    by (auto simp: numbered_post_def eval_nat_numeral less_Suc_eq)
  have dir: "project_dir example_bot = ''tjm-project''"
    by (simp add: example_bot_def)
  note inst = one_path_per_fetched_post [OF api run all, THEN conjunct2, THEN mp, OF conjI,
        OF ten ids]
  have 1: "dialog_paths (snd (automation_steps example_bot env_twelve_posts [])) =
     map (\<lambda>name. ''tjm-project'' @ backslash # name)
       [''post 1.txt'', ''post 2.txt'', ''post 3.txt'', ''post 4.txt'', ''post 5.txt'',
               ''post 6.txt'', ''post 7.txt'', ''post 8.txt'', ''post 9.txt'', ''post 10.txt'']"
    using inst [THEN conjunct1] by (simp add: dir)
  have 2: "saved_files (snd (automation_steps example_bot env_twelve_posts [])) =
     map (\<lambda>name. ''tjm-project'' @ backslash # name)
       [''post 1.txt'', ''post 2.txt'', ''post 3.txt'', ''post 4.txt'', ''post 5.txt'',
               ''post 6.txt'', ''post 7.txt'', ''post 8.txt'', ''post 9.txt'', ''post 10.txt'']"
    using inst [THEN conjunct2, THEN conjunct1] by (simp add: dir)
  from 1 2 show ?thesis by (rule conjI)
qed

text \<open>
  Claim C1 as stated fails: a run completes with every fetched post saved, and the files
  are not the ten files \<^verbatim>\<open>post 1.txt\<close> to \<^verbatim>\<open>post 10.txt\<close>. The API gave one post,
  with the id 42, and the one file saved is \<^verbatim>\<open>post 42.txt\<close>.
\<close>

theorem other_files_counterexample:
  "fst (run_automation example_bot env_post_42 []) = Inr ()
   \<and> fst (automation_steps example_bot env_post_42 []) =
       Inr \<lparr>successful_posts = 1, failed_posts = 0\<rparr>
   \<and> saved_files (snd (run_automation example_bot env_post_42 [])) =
       [path_join ''tjm-project'' ''post 42.txt'']"
  by (simp add: run_automation_def run_unfold example_defs py_str_def show_int_def
      show_nat.simps digit_char_def)

section \<open>The posts that are fetched and the iterations of the loop\<close>

lemma process_posts_iterations_le:
  "iterations (snd (process_posts self posts i c env tr)) \<le> iterations tr + length posts"
proof (induction posts arbitrary: i c tr)
  case Nil
  then show ?case by (simp add: io_return_def)
next
  case (Cons post rest)
  obtain ctl tr1 where body: "loop_body self post i c env tr = (Inr ctl, tr1)"
    using loop_body_returns by blast
  have one: "iterations tr1 = iterations tr + 1"
    using loop_body_iterations [OF body] .
  show ?case
  proof (cases ctl)
    case (Continue c1)
    with body one Cons.IH [of "i + 1" c1 tr1] show ?thesis by (simp add: io_bind_def)
  next
    case (Break c1)
    with body one show ?thesis by (simp add: io_bind_def io_return_def)
  qed
qed

text \<open>
  Claim C5, as amended. On an API response that is the array \<open>xs\<close>, \<^verbatim>\<open>fetch_posts_data\<close>
  returns when the request and the status check return, and whenever it returns, it
  returns the first ten elements of \<open>xs\<close> in their order (all of them when there are
  fewer). A run that completes has made at most one iteration of the loop per returned
  element, and exactly one per returned element when the operator does not interrupt
  (an interrupt that reaches the loop leaves it before the remaining elements).
\<close>

theorem first_ten_posts_each_once:
  assumes api: "\<forall>t. env t ResponseJson = Ret (PList xs)"
  shows "((\<forall>t. \<exists>v. env t (RequestsGet (api_url self) 30) = Ret v)
          \<and> (\<forall>t. \<exists>v. env t RaiseForStatus = Ret v)
        \<longrightarrow> fst (fetch_posts_data self env tr) = Inr (PList (take 10 xs)))
    \<and> (\<forall>v. fst (fetch_posts_data self env tr) = Inr v \<longrightarrow> v = PList (take 10 xs))
    \<and> (\<forall>c tr'. automation_steps self env tr = (Inr c, tr')
        \<longrightarrow> iterations tr' \<le> iterations tr + length (take 10 xs))
    \<and> (\<forall>c tr'. uninterrupted env \<and> automation_steps self env tr = (Inr c, tr')
        \<longrightarrow> iterations tr' = iterations tr + length (take 10 xs))"
proof (intro conjI allI impI)
  assume "(\<forall>t. \<exists>v. env t (RequestsGet (api_url self) 30) = Ret v)
      \<and> (\<forall>t. \<exists>v. env t RaiseForStatus = Ret v)"
  then have get: "\<And>t. \<exists>v. env t (RequestsGet (api_url self) 30) = Ret v"
    and status: "\<And>t. \<exists>v. env t RaiseForStatus = Ret v"
    by blast+
  have json: "\<And>t. env t ResponseJson = Ret (PList xs)"
    using api by blast
  show "fst (fetch_posts_data self env tr) = Inr (PList (take 10 xs))"
    by (rule fetch_first_ten [OF get status json])
next
  fix v assume "fst (fetch_posts_data self env tr) = Inr v"
  then have "fetch_posts_data self env tr = (Inr v, snd (fetch_posts_data self env tr))"
    by (metis prod.collapse)
  then show "v = PList (take 10 xs)" by (rule fetched_posts [where env = env, OF api])
next
  fix c tr' assume run: "automation_steps self env tr = (Inr c, tr')"
  from run_saved_files [OF run] obtain v posts t1 t2 t3 t4 where
    f: "fetch_posts_data self env t1 = (Inr v, t2)"
    and it: "py_iter v = Inr posts"
    and p: "process_posts self posts 1 \<lparr>successful_posts = 0, failed_posts = 0\<rparr> env t3 = (Inr c, t4)"
    and s3: "saved_files t3 = saved_files tr" and s4: "saved_files tr' = saved_files t4"
    and i3: "iterations t3 = iterations tr" and i4: "iterations tr' = iterations t4"
    .
  have "v = PList (take 10 xs)"
    by (rule fetched_posts [where env = env, OF api f])
  with it have posts: "posts = take 10 xs" by (simp add: py_iter_def)
  have "iterations (snd (process_posts self posts 1
        \<lparr>successful_posts = 0, failed_posts = 0\<rparr> env t3)) \<le> iterations t3 + length posts"
    by (rule process_posts_iterations_le)
  then have "iterations t4 \<le> iterations t3 + length posts"
    using p by simp
  with i3 i4 posts show "iterations tr' \<le> iterations tr + length (take 10 xs)" by simp
next
  fix c tr' assume "uninterrupted env \<and> automation_steps self env tr = (Inr c, tr')"
  then have calm: "uninterrupted env" and run: "automation_steps self env tr = (Inr c, tr')"
    by simp_all
  from run_saved_files [OF run] obtain v posts t1 t2 t3 t4 where
    f: "fetch_posts_data self env t1 = (Inr v, t2)"
    and it: "py_iter v = Inr posts"
    and p: "process_posts self posts 1 \<lparr>successful_posts = 0, failed_posts = 0\<rparr> env t3 = (Inr c, t4)"
    and s3: "saved_files t3 = saved_files tr" and s4: "saved_files tr' = saved_files t4"
    and i3: "iterations t3 = iterations tr" and i4: "iterations tr' = iterations t4"
    .
  have "v = PList (take 10 xs)"
    by (rule fetched_posts [where env = env, OF api f])
  with it have posts: "posts = take 10 xs" by (simp add: py_iter_def)
  have "iterations (snd (process_posts self posts 1
        \<lparr>successful_posts = 0, failed_posts = 0\<rparr> env t3)) = iterations t3 + length posts"
    by (rule process_posts_iterations [OF calm])
  then have "iterations t4 = iterations t3 + length posts"
    using p by simp
  with i3 i4 posts show "iterations tr' = iterations tr + length (take 10 xs)" by simp
qed

theorem first_ten_posts_each_once_witness:
  "fst (fetch_posts_data example_bot env_twelve_posts []) =
     Inr (PList (map numbered_post [1, 2, 3, 4, 5, 6, 7, 8, 9, 10]))
   \<and> iterations (snd (automation_steps example_bot env_twelve_posts [])) = 10"
proof -
  let ?xs = "map numbered_post [1, 2, 3, 4, 5, 6, 7, 8, 9, 10, 11, 12]"
  have api: "\<forall>t. env_twelve_posts t ResponseJson = Ret (PList ?xs)"
    by (simp add: env_twelve_posts_def)
  note inst = first_ten_posts_each_once [where env = env_twelve_posts and self = example_bot
      and tr = "[]", OF api]
  have calls: "(\<forall>t. \<exists>v. env_twelve_posts t (RequestsGet (api_url example_bot) 30) = Ret v)
      \<and> (\<forall>t. \<exists>v. env_twelve_posts t RaiseForStatus = Ret v)"
    by (simp add: env_twelve_posts_def env_fine_def)
  have fetched: "fst (fetch_posts_data example_bot env_twelve_posts []) = Inr (PList (take 10 ?xs))"
    using inst [THEN conjunct1] calls by (rule mp)
  have calm: "uninterrupted env_twelve_posts"
    by (simp add: uninterrupted_def env_twelve_posts_def env_fine_def split: action.splits)
  have "fst (automation_steps example_bot env_twelve_posts []) =
      Inr \<lparr>successful_posts = 10, failed_posts = 0\<rparr>"
    by (simp add: run_unfold example_defs)
  then have run: "automation_steps example_bot env_twelve_posts [] =
      (Inr \<lparr>successful_posts = 10, failed_posts = 0\<rparr>,
       snd (automation_steps example_bot env_twelve_posts []))"
    by (metis prod.collapse)
  have "iterations (snd (automation_steps example_bot env_twelve_posts [])) =
      iterations [] + length (take 10 ?xs)"
    using inst [THEN conjunct2, THEN conjunct2, THEN conjunct2, rule_format, OF conjI,
        OF calm run] .
  with fetched show ?thesis by simp
qed

text \<open>
  Claim C5 as stated fails: the loop does not always iterate over each returned element.
  Here the fetch returns two posts and the operator presses Ctrl+C while the text of the
  first one is being typed: the loop is left after one iteration, the steps of the run
  complete and \<^verbatim>\<open>run_automation\<close> returns.
\<close>

theorem interrupted_loop_counterexample:
  "fst (fetch_posts_data example_bot env_interrupted_typing
          (snd (announce env_interrupted_typing []))) = Inr (PList [post_a, post_b])
   \<and> fst (automation_steps example_bot env_interrupted_typing []) =
       Inr \<lparr>successful_posts = 0, failed_posts = 0\<rparr>
   \<and> iterations (snd (automation_steps example_bot env_interrupted_typing [])) = 1
   \<and> fst (run_automation example_bot env_interrupted_typing []) = Inr ()
   \<and> iterations (snd (run_automation example_bot env_interrupted_typing [])) = 1"
  by (simp add: run_automation_def run_unfold example_defs iteration_line_def rule_text_differs)

section \<open>Failures\<close>

lemma in_new_events:
  assumes "tr1 = tr @ s" and "tr' = tr1 @ s'" and "ev \<in> set s \<or> ev \<in> set s'"
  shows "ev \<in> set (drop (length tr) tr')"
  using assms by auto








section \<open>The order of a run\<close>

lemma emits_anything: "emits P m \<Longrightarrow> emits (\<lambda>ev. True) m"
  by (erule emits_weaken) simp

lemma grows_loop_handler: "emits (\<lambda>ev. True) (loop_handler i c e)"
  unfolding loop_handler_def
  by (intro emits_intros emits_anything [OF emits_create_new_document]) simp_all

lemma grows_loop_body: "emits (\<lambda>ev. True) (loop_body self post i c)"
  unfolding loop_body_def Let_def
  by (intro emits_intros grows_loop_handler emits_anything [OF emits_process_single_post])
    simp_all

lemma grows_process_posts: "emits (\<lambda>ev. True) (process_posts self posts i c)"
proof (induction posts arbitrary: i c)
  case Nil
  show ?case by (simp add: emits_return)
next
  case (Cons post rest)
  show ?case
    unfolding process_posts.simps
  proof (rule emits_bind [OF grows_loop_body])
    fix ctl
    show "emits (\<lambda>ev. True)
        (case ctl of Continue c' \<Rightarrow> process_posts self rest (i + 1) c' | Break c' \<Rightarrow> io_return c')"
      by (cases ctl) (simp_all add: Cons.IH emits_return)
  qed
qed

lemma bind_extends:
  assumes "\<And>x. emits (\<lambda>ev. True) (f x)"
  shows "prefix (snd (m env tr)) (snd (io_bind m f env tr))"
proof (cases "m env tr")
  case (Pair r t1)
  show ?thesis
  proof (cases r)
    case (Inl e)
    with Pair show ?thesis by (simp add: io_bind_def)
  next
    case (Inr x)
    with Pair emits_prefix [OF assms, of t1 x env] show ?thesis by (simp add: io_bind_def)
  qed
qed

lemma try_catch_extends:
  assumes "\<And>e. emits (\<lambda>ev. True) (h e)"
  shows "prefix (snd (m env tr)) (snd (try_catch m h env tr))"
proof (cases "m env tr")
  case (Pair r t1)
  show ?thesis
  proof (cases r)
    case (Inr x)
    with Pair show ?thesis by (simp add: try_catch_def)
  next
    case (Inl e)
    with Pair emits_prefix [OF assms, of t1 e env] show ?thesis by (simp add: try_catch_def)
  qed
qed

lemma fetch_then_rest:
  assumes "fst (announce env tr) = Inr ()"
  shows "prefix (snd (fetch_posts_data self env (snd (announce env tr))))
           (snd (automation_steps self env tr))"
proof -
  obtain t1 where ann: "announce env tr = (Inr (), t1)"
    using assms by (cases "announce env tr") auto
  let ?guarded = "try_except (fetch_posts_data self)
      (\<lambda>e. thn (log_line Error '' API fetch failed: {}'') (io_raise e))"
  define after_fetch where "after_fetch = (\<lambda>posts_data.
     thn (try_except
            (io_bind launch_notepad (\<lambda>launched.
               if \<not> launched then io_raise LaunchFailed else io_return ()))
            (\<lambda>e. thn (log_line Error '' Application launch failed: {}'') (io_raise e)))
    (io_bind (lift (py_len posts_data)) (\<lambda>n.
     thn (log_line Info '' Processing {} posts...'')
    (io_bind (lift (py_iter posts_data)) (\<lambda>posts.
     io_bind (process_posts self posts 1 \<lparr>successful_posts = 0, failed_posts = 0\<rparr>) (\<lambda>c.
     thn close_notepad
    (thn (final_report self)
    (io_return c))))))))"
  have 1: "prefix (snd (fetch_posts_data self env t1)) (snd (?guarded env t1))"
    unfolding try_except_def
    by (rule try_catch_extends) (simp add: emits_intros)
  have rest: "\<And>posts_data. emits (\<lambda>ev. True) (after_fetch posts_data)"
    unfolding after_fetch_def
    by (intro emits_intros grows_process_posts emits_anything [OF emits_launch]
        emits_anything [OF emits_close_notepad] emits_anything [OF emits_final_report])
      simp_all
  have whole: "automation_steps self = thn announce (io_bind ?guarded after_fetch)"
    unfolding automation_steps_def after_fetch_def by (rule refl)
  have skip: "\<And>next_steps. thn announce next_steps env tr = next_steps env t1"
    using ann by (simp add: thn_def io_bind_def)
  have 2: "prefix (snd (?guarded env t1)) (snd (automation_steps self env tr))"
    unfolding whole skip by (rule bind_extends [OF rest])
  from 1 2 have "prefix (snd (fetch_posts_data self env t1)) (snd (automation_steps self env tr))"
    by (rule prefix_order.trans)
  with ann show ?thesis by simp
qed

lemma post_then_rest_of_body:
  "prefix (snd (process_single_post self post i env (tr @ [iteration_line])))
     (snd (loop_body self post i c env tr))"
proof -
  have handler: "\<And>c e t. prefix t (snd (loop_handler i c e env t))"
    by (rule emits_prefix [OF grows_loop_handler])
  have handler2: "\<And>c e t ev. prefix t (snd (loop_handler i c e env (t @ [ev])))"
    using handler by (meson prefix_order.trans prefixI)
  show ?thesis
    using handler handler2
    by (auto simp: loop_body_eq Let_def split: prod.splits sum.splits outcome.splits)
qed

lemma body_then_rest_of_loop:
  "prefix (snd (loop_body self post i c env tr))
     (snd (process_posts self (post # rest) i c env tr))"
  unfolding process_posts.simps
proof (rule bind_extends)
  fix ctl
  show "emits (\<lambda>ev. True)
      (case ctl of Continue c' \<Rightarrow> process_posts self rest (i + 1) c' | Break c' \<Rightarrow> io_return c')"
    by (cases ctl) (simp_all add: grows_process_posts emits_return)
qed

lemma typing_saving_disjoint:
  "post_typing_actions post \<inter> post_saving_actions self post i = {}"
  by (auto simp: post_typing_actions_def post_saving_actions_def typing_actions_def
      saving_actions_def new_document_actions_def split: sum.splits)

text \<open>
  Claim C7. A run is one pass, in this order. Once the announcement has returned, the
  whole of the fetch comes next: up to its end the run has made no call but the
  announcement's and the fetch's, and has begun no iteration; the rest of the run only
  extends that trace. What the processing of a post appends is first the events of typing
  the post's formatted text, then the events of saving it under the post's filename and
  of opening the next document, and no call belongs to both. The processing of a post is
  complete before the rest of its iteration, and an iteration is complete before the
  rest of the loop, which is the loop over the remaining posts started from where the
  iteration ended.
\<close>

theorem strictly_sequential:
  "(fst (announce env tr) = Inr () \<longrightarrow>
      (\<exists>before. snd (fetch_posts_data self env (snd (announce env tr))) = tr @ before
         \<and> list_all
             (step_event {Print [], RequestsGet (api_url self) 30, RaiseForStatus, ResponseJson})
             before
         \<and> prefix (tr @ before) (snd (automation_steps self env tr))))
   \<and> (\<exists>typed saved. snd (process_single_post self post i env tr) = tr @ typed @ saved
         \<and> list_all (step_event (post_typing_actions post)) typed
         \<and> list_all (step_event (post_saving_actions self post i)) saved)
   \<and> post_typing_actions post \<inter> post_saving_actions self post i = {}
   \<and> prefix (snd (process_single_post self post i env (tr @ [iteration_line])))
        (snd (loop_body self post i c env tr))
   \<and> prefix (snd (loop_body self post i c env tr))
        (snd (process_posts self (post # rest) i c env tr))
   \<and> (\<forall>c1 tr1. loop_body self post i c env tr = (Inr (Continue c1), tr1) \<longrightarrow>
        process_posts self (post # rest) i c env tr = process_posts self rest (i + 1) c1 env tr1)"
proof -
  let ?A = "{Print [], RequestsGet (api_url self) 30, RaiseForStatus, ResponseJson}"
  have first: "\<exists>before. snd (fetch_posts_data self env (snd (announce env tr))) = tr @ before
         \<and> list_all (step_event ?A) before
         \<and> prefix (tr @ before) (snd (automation_steps self env tr))"
    if ann: "fst (announce env tr) = Inr ()"
  proof -
    obtain s1 where s1: "snd (announce env tr) = tr @ s1" "list_all (step_event ?A) s1"
      using emitsD [OF emits_step_mono [OF emits_announce, of ?A], of env tr] by auto
    obtain s2 where s2: "snd (fetch_posts_data self env (snd (announce env tr))) =
        snd (announce env tr) @ s2" "list_all (step_event ?A) s2"
      using emitsD [OF emits_step_mono [OF emits_fetch, of self ?A], of env "snd (announce env tr)"]
      by auto
    have "snd (fetch_posts_data self env (snd (announce env tr))) = tr @ (s1 @ s2)"
      using s1(1) s2(1) by simp
    moreover have "list_all (step_event ?A) (s1 @ s2)"
      using s1(2) s2(2) by simp
    moreover have "prefix (tr @ (s1 @ s2)) (snd (automation_steps self env tr))"
      using fetch_then_rest [OF ann, of self] s1(1) s2(1) by simp
    ultimately show ?thesis by blast
  qed
  have phases: "\<exists>typed saved. snd (process_single_post self post i env tr) = tr @ typed @ saved
         \<and> list_all (step_event (post_typing_actions post)) typed
         \<and> list_all (step_event (post_saving_actions self post i)) saved"
    using typing_then_saving [of post self i] unfolding emits2_def by blast
  have next_post: "process_posts self (post # rest) i c env tr =
      process_posts self rest (i + 1) c1 env tr1"
    if "loop_body self post i c env tr = (Inr (Continue c1), tr1)" for c1 tr1
    using that by (simp add: io_bind_def)
  show ?thesis
    using first phases typing_saving_disjoint [of post self i]
      post_then_rest_of_body [of self post i env tr c]
      body_then_rest_of_loop [of self post i c env tr rest] next_post
    by (intro conjI impI allI)
qed

theorem strictly_sequential_witness:
  "prefix (snd (fetch_posts_data example_bot env_two_posts (snd (announce env_two_posts []))))
     (snd (automation_steps example_bot env_two_posts []))
   \<and> (\<exists>typed saved. snd (process_single_post example_bot post_a 1 env_two_posts []) = typed @ saved
         \<and> list_all (step_event (post_typing_actions post_a)) typed
         \<and> list_all (step_event (post_saving_actions example_bot post_a 1)) saved)
   \<and> process_posts example_bot [post_a, post_b] 1
         \<lparr>successful_posts = 0, failed_posts = 0\<rparr> env_two_posts [] =
       process_posts example_bot [post_b] 2
         \<lparr>successful_posts = 1, failed_posts = 0\<rparr> env_two_posts
         (snd (loop_body example_bot post_a 1
                 \<lparr>successful_posts = 0, failed_posts = 0\<rparr> env_two_posts []))"
proof -
  note inst = strictly_sequential [of env_two_posts "[]" example_bot post_a 1
      "\<lparr>successful_posts = 0, failed_posts = 0\<rparr>" "[post_b]"]
  have ann: "fst (announce env_two_posts []) = Inr ()"
    by (simp add: announce_def io_defs example_defs)
  have "fst (loop_body example_bot post_a 1 \<lparr>successful_posts = 0, failed_posts = 0\<rparr>
      env_two_posts []) = Inr (Continue \<lparr>successful_posts = 1, failed_posts = 0\<rparr>)"
    by (simp add: run_unfold example_defs)
  then have body: "loop_body example_bot post_a 1 \<lparr>successful_posts = 0, failed_posts = 0\<rparr>
      env_two_posts [] =
      (Inr (Continue \<lparr>successful_posts = 1, failed_posts = 0\<rparr>),
       snd (loop_body example_bot post_a 1 \<lparr>successful_posts = 0, failed_posts = 0\<rparr>
              env_two_posts []))"
    by (metis prod.collapse)
  from inst [THEN conjunct1, rule_format, OF ann]
  have 1: "prefix (snd (fetch_posts_data example_bot env_two_posts (snd (announce env_two_posts []))))
      (snd (automation_steps example_bot env_two_posts []))"
    by auto
  from inst [THEN conjunct2, THEN conjunct1]
  have 2: "\<exists>typed saved. snd (process_single_post example_bot post_a 1 env_two_posts []) = typed @ saved
         \<and> list_all (step_event (post_typing_actions post_a)) typed
         \<and> list_all (step_event (post_saving_actions example_bot post_a 1)) saved"
    by simp
  from inst [THEN conjunct2, THEN conjunct2, THEN conjunct2, THEN conjunct2, THEN conjunct2,
      rule_format, OF body]
  have 3: "process_posts example_bot [post_a, post_b] 1
         \<lparr>successful_posts = 0, failed_posts = 0\<rparr> env_two_posts [] =
       process_posts example_bot [post_b] 2
         \<lparr>successful_posts = 1, failed_posts = 0\<rparr> env_two_posts
         (snd (loop_body example_bot post_a 1
                 \<lparr>successful_posts = 0, failed_posts = 0\<rparr> env_two_posts []))"
    by (simp add: numeral_2_eq_2)
  from 1 2 3 show ?thesis by (intro conjI)
qed

section \<open>An interrupt by the operator\<close>

text \<open>
  Where the interrupt reaches a handler that names \<open>KeyboardInterrupt\<close>, the loop is
  left: here the operator interrupts the typing of the first of two posts. The second
  post is not processed, the interruption is logged, the closing keystrokes are sent and
  \<^verbatim>\<open>run_automation\<close> returns.
\<close>

lemma interrupt_while_typing_stops:
  "fst (run_automation example_bot env_interrupted_typing []) = Inr ()
   \<and> iterations (snd (run_automation example_bot env_interrupted_typing [])) = 1
   \<and> saved_files (snd (run_automation example_bot env_interrupted_typing [])) = []
   \<and> Log Info '' User interrupted automation''
       \<in> set (snd (run_automation example_bot env_interrupted_typing []))
   \<and> Ext (Hotkey ''alt'' ''f4'') (Ret PNone)
       \<in> set (snd (run_automation example_bot env_interrupted_typing []))"
  by (simp add: run_automation_def run_unfold example_defs iteration_line_def rule_text_differs)

text \<open>
  Claim C8. The claim holds of the handlers that name \<open>KeyboardInterrupt\<close>, and the
  script announces that Ctrl+C interrupts at any time, but the code does not do it at
  every point: a bare \<^verbatim>\<open>except: pass\<close> swallows the interrupt. Here the operator
  interrupts while \<^verbatim>\<open>save_document\<close> presses the key that confirms an overwrite, for
  the first of two posts. The run goes on: the first post is counted as successful, the
  second post is processed and saved, and \<^verbatim>\<open>run_automation\<close> returns.
\<close>

theorem interrupt_swallowed:
  "fst (run_automation example_bot env_interrupted_once []) = Inr ()
   \<and> fst (automation_steps example_bot env_interrupted_once []) =
       Inr \<lparr>successful_posts = 2, failed_posts = 0\<rparr>
   \<and> Ext (Press ''enter'') (Raise KeyboardInterrupt)
       \<in> set (snd (run_automation example_bot env_interrupted_once []))
   \<and> iterations (snd (run_automation example_bot env_interrupted_once [])) = 2
   \<and> saved_files (snd (run_automation example_bot env_interrupted_once [])) =
       [path_join ''tjm-project'' ''post 1.txt'', path_join ''tjm-project'' ''post 2.txt'']"
  by (simp add: run_automation_def run_unfold example_defs py_str_def show_int_def
      show_nat.simps digit_char_def iteration_line_def rule_text_differs)


end
